theory Spec2Isabelle
  imports Complex_Main
begin

section \<open>The text-video-to-action SFT configuration\<close>

text \<open>
  \<^verbatim>\<open>align_anything/configs/train/text_video_to_action/sft.yaml\<close> is a static document.
  It is embedded as the value a YAML 1.1 loader resolves it to: a mapping keeps its
  entries in file order, an unquoted \<^verbatim>\<open>True\<close>/\<^verbatim>\<open>False\<close> is a boolean, \<^verbatim>\<open>null\<close> is the null
  value, a number with a dot is a float, a flow sequence \<^verbatim>\<open>[a, b]\<close> is a sequence, and every
  other scalar is a string. A float carries the rational number its decimal literal
  denotes (\<^verbatim>\<open>1.e-8\<close> is \<open>1 / 10 ^ 8\<close>); the binary rounding of the loader is not part of the
  document.
\<close>

datatype yaml =
    YNull
  | YBool bool
  | YInt int
  | YFloat real
  | YStr string
  | YSeq "yaml list"
  | YMap "(string \<times> yaml) list"

definition train_cfgs :: yaml where
  "train_cfgs = YMap
     [(''save_checkpoint'', YBool False),
      (''load_checkpoint'', YBool False),
      (''ds_cfgs'', YStr ''ds_z3_config.json''),
      (''seed'', YInt 3407),
      (''epochs'', YInt 200),
      (''per_device_train_batch_size'', YInt 8),
      (''per_device_val_batch_size'', YInt 12),
      (''gradient_accumulation_steps'', YInt 2),
      (''gradient_checkpointing'', YBool False),
      (''learning_rate'', YFloat (1 / 10000)),
      (''lr_scheduler_type'', YStr ''constant''),
      (''lr_warmup_ratio'', YFloat 0),
      (''weight_decay'', YFloat 0),
      (''adam_betas'', YSeq [YFloat (9 / 10), YFloat (95 / 100)]),
      (''adam_epsilon'', YFloat (1 / 10 ^ 8)),
      (''loss'', YStr ''action''),
      (''val_strategy'', YStr ''steps''),
      (''val_interval'', YInt 500),
      (''max_grad_norm'', YFloat 1),
      (''bf16'', YBool True),
      (''fp16'', YBool False)]"

definition data_cfgs :: yaml where
  "data_cfgs = YMap
     [(''dataset_version'', YStr ''CHORES''),
      (''dataset_task_type'', YSeq [YStr ''PickupType'']),
      (''data_dir'', YStr ''path/to/data''),
      (''sliding_window'', YInt 100),
      (''init_prob_sample_last_steps'', YFloat 0),
      (''final_prob_sample_last_steps'', YFloat 0),
      (''reduce_action_redundancy'', YBool False),
      (''max_samples'', YInt 10000000),
      (''val_max_samples'', YInt 640),
      (''val_datasets'', YBool False),
      (''num_workers'', YInt 8)]"

definition sensor_cfgs :: yaml where
  "sensor_cfgs = YMap
     [(''input_sensors'', YSeq [YStr ''raw_navigation_camera'', YStr ''raw_manipulation_camera''])]"

definition logger_cfgs :: yaml where
  "logger_cfgs = YMap
     [(''log_type'', YStr ''wandb''),
      (''log_project'', YNull),
      (''log_run_name'', YNull),
      (''output_dir'', YNull),
      (''cache_dir'', YNull),
      (''save_total_limit'', YInt 1),
      (''log_video_interval'', YInt 2000),
      (''log_video_interval_val'', YInt 100)]"

definition model_cfgs :: yaml where
  "model_cfgs = YMap
     [(''model_architecture'', YStr ''EarlyFusionCnnTransformer''),
      (''model_name_or_path'', YNull),
      (''model_version'', YStr ''small_3'')]"

definition lora_cfgs :: yaml where
  "lora_cfgs = YMap
     [(''use_lora'', YBool False),
      (''task_type'', YStr ''TaskType.CAUSAL_LM''),
      (''inference_mode'', YBool False),
      (''r'', YInt 16),
      (''lora_alpha'', YInt 16),
      (''lora_dropout'', YFloat (1 / 10)),
      (''target_modules'', YSeq [YStr ''q_proj'', YStr ''v_proj'']),
      (''save_full_model'', YBool True)]"

definition bnb_cfgs :: yaml where
  "bnb_cfgs = YMap
     [(''use_bnb'', YBool False),
      (''load_in_4bit'', YBool True),
      (''load_in_8bit'', YBool False),
      (''bnb_4bit_quant_type'', YStr ''nf4''),
      (''bnb_4bit_use_double_quant'', YBool True),
      (''bnb_4bit_compute_dtype'', YStr ''float16'')]"

text \<open>The whole document: the seven groups in file order, then \<^verbatim>\<open>special_tokens: null\<close>.\<close>

definition sft_yaml :: yaml where
  "sft_yaml = YMap
     [(''train_cfgs'', train_cfgs),
      (''data_cfgs'', data_cfgs),
      (''sensor_cfgs'', sensor_cfgs),
      (''logger_cfgs'', logger_cfgs),
      (''model_cfgs'', model_cfgs),
      (''lora_cfgs'', lora_cfgs),
      (''bnb_cfgs'', bnb_cfgs),
      (''special_tokens'', YNull)]"

text \<open>Reading the document: the entries of a mapping, its keys, and a lookup along a path of keys.\<close>

fun entries :: "yaml \<Rightarrow> (string \<times> yaml) list" where
  "entries (YMap kvs) = kvs"
| "entries _ = []"

definition top_level_keys :: "yaml \<Rightarrow> string list" where
  "top_level_keys y = map fst (entries y)"

fun is_group :: "yaml \<Rightarrow> bool" where
  "is_group (YMap kvs) = True"
| "is_group _ = False"

definition group_keys :: "yaml \<Rightarrow> string list" where
  "group_keys y = map fst (filter (\<lambda>kv. is_group (snd kv)) (entries y))"

fun lookup_path :: "yaml \<Rightarrow> string list \<Rightarrow> yaml option" where
  "lookup_path y [] = Some y"
| "lookup_path (YMap kvs) (k # ks) =
     (case map_of kvs k of None \<Rightarrow> None | Some v \<Rightarrow> lookup_path v ks)"
| "lookup_path _ (k # ks) = None"

section \<open>The AA_TI2T chat template\<close>

text \<open>
  Python values as far as the formatter meets them. A raw sample is a \<^verbatim>\<open>dict[str, Any]\<close>:
  a finite map from keys to values of any kind. \<^verbatim>\<open>None\<close>, strings, lists and dicts are the
  built-in values the formatter reads or builds; every other value is an object, whatever
  its class (an image of the imaging library, or anything else), and \<open>'obj\<close> stands for
  these. The output is built from list and dict literals, kept as they are written (a dict
  literal as its entries in order).
\<close>

datatype error =
    KeyError string
  | AttributeError string
  | LibraryError string

datatype 'obj pyval =
    PyNone
  | PyStr string
  | PyObject 'obj
  | PyList "'obj pyval list"
  | PyDict "(string \<times> 'obj pyval) list"

type_synonym 'obj raw_sample = "string \<rightharpoonup> 'obj pyval"

record formatter =
  system_prompt :: string

definition AA_TI2T :: formatter where
  "AA_TI2T = \<lparr>system_prompt = []\<rparr>"

text \<open>\<^verbatim>\<open>d[k]\<close>: the value under the key, or \<^verbatim>\<open>KeyError(k)\<close>.\<close>

definition getitem :: "(string \<rightharpoonup> 'a) \<Rightarrow> string \<Rightarrow> error + 'a" where
  "getitem d k = (case d k of None \<Rightarrow> Inl (KeyError k) | Some v \<Rightarrow> Inr v)"

text \<open>
  \<^verbatim>\<open>obj.convert(mode)\<close> is dispatched on the value at run time; the source makes no type
  check. \<^verbatim>\<open>None\<close>, strings, lists and dicts have no attribute \<^verbatim>\<open>convert\<close>: the lookup raises
  \<^verbatim>\<open>AttributeError\<close>. On any other object the call is the object's own method. That method
  is outside the repository and is a parameter: it may read and change the state of the
  world \<open>'w\<close> (the object itself, the library, open files), and it returns a value of any
  kind or raises (with \<^verbatim>\<open>AttributeError\<close> too, when the object has no such method).
\<close>

type_synonym ('obj, 'w) py_method = "'w \<Rightarrow> 'obj \<Rightarrow> string \<Rightarrow> (error + 'obj pyval) \<times> 'w"

definition call_convert ::
  "('obj, 'w) py_method \<Rightarrow> 'w \<Rightarrow> 'obj pyval \<Rightarrow> string \<Rightarrow> (error + 'obj pyval) \<times> 'w" where
  "call_convert convert w obj mode =
     (case obj of
        PyObject ob \<Rightarrow> convert w ob mode
      | _ \<Rightarrow> (Inl (AttributeError ''convert''), w))"

text \<open>
  \<^verbatim>\<open>AA_TI2T.format_supervised_sample(self, raw_sample)\<close>: three lookups in source order, the
  conversion of the image, and the returned pair of literals. A call runs in a state a later
  call can observe: the formatter object, the sample (a mutable dict) and the world. The
  function returns its result together with all three as the call leaves them; the source
  assigns to none of \<^verbatim>\<open>self\<close>, \<^verbatim>\<open>raw_sample\<close> or a global, so only the world can differ, and
  only through \<^verbatim>\<open>convert\<close>.
\<close>

definition format_supervised_sample ::
  "('obj, 'w) py_method \<Rightarrow> formatter \<Rightarrow> 'obj raw_sample \<Rightarrow> 'w
     \<Rightarrow> (error + ('obj pyval \<times> 'obj pyval)) \<times> formatter \<times> 'obj raw_sample \<times> 'w" where
  "format_supervised_sample convert self raw_sample w =
     (case getitem raw_sample ''prompt'' of Inl e \<Rightarrow> (Inl e, self, raw_sample, w)
      | Inr prompt \<Rightarrow>
     (case getitem raw_sample ''response'' of Inl e \<Rightarrow> (Inl e, self, raw_sample, w)
      | Inr answer \<Rightarrow>
     (case getitem raw_sample ''image'' of Inl e \<Rightarrow> (Inl e, self, raw_sample, w)
      | Inr img \<Rightarrow>
     (case call_convert convert w img ''RGBA'' of
        (Inl e, w') \<Rightarrow> (Inl e, self, raw_sample, w')
      | (Inr image_rgba, w') \<Rightarrow>
          (Inr (PyList
                  [PyDict
                     [(''role'', PyStr ''user''),
                      (''content'',
                         PyList
                           [PyDict [(''type'', PyStr ''image'')],
                            PyDict [(''type'', PyStr ''text''), (''text'', prompt)]])],
                   PyDict
                     [(''role'', PyStr ''assistant''),
                      (''content'',
                         PyList [PyDict [(''type'', PyStr ''text''), (''text'', answer)]])]],
                PyDict [(''image'', image_rgba)]),
           self, raw_sample, w')))))"


section \<open>Batches\<close>

text \<open>A batch is a dict from field names to tensors; the tensors themselves stay abstract.\<close>

type_synonym 'v batch = "string \<rightharpoonup> 'v"

text \<open>\<^verbatim>\<open>d.pop(k)\<close> with no default: removes the key and returns its value, or \<^verbatim>\<open>KeyError(k)\<close>.\<close>

definition pop :: "'v batch \<Rightarrow> string \<Rightarrow> error + ('v \<times> 'v batch)" where
  "pop d k = (case d k of None \<Rightarrow> Inl (KeyError k) | Some v \<Rightarrow> Inr (v, d(k := None)))"

section \<open>The SFT training loop\<close>

text \<open>
  The notebook contains the loop twice (the training cell and the full script); the two
  copies are the same statements, so one model stands for both.

  Every statement of the loop that calls into a library is an event. The libraries are
  outside the repository, so what they do is a parameter of the model (\<open>env\<close>): which
  batches the data loader yields in each pass, whether a call raises (as a function of the
  calls completed so far), and the number a loss evaluates to. A state is the sequence of
  completed calls together with the one data structure the loop owns, the deque of losses.
  On an exception the state reached so far is kept and returned with the error.
\<close>

datatype ('v, 'f) loss = Loss (graph: "'v batch") (item: 'f)

datatype ('v, 'f) event =
    Tqdm nat                  \<comment> \<open>\<^verbatim>\<open>tqdm(range(total), desc=...)\<close>\<close>
  | Makedirs string           \<comment> \<open>\<^verbatim>\<open>os.makedirs(path, exist_ok=True)\<close>\<close>
  | SetDescription nat        \<comment> \<open>\<^verbatim>\<open>progress_bar.set_description(f"Training for {n}/3 epochs...")\<close>\<close>
  | ModelTrain                \<comment> \<open>\<^verbatim>\<open>model.train()\<close>\<close>
  | Forward "'v batch"        \<comment> \<open>\<^verbatim>\<open>model(**batch)['loss']\<close>\<close>
  | ZeroGrad                  \<comment> \<open>\<^verbatim>\<open>optimizer.zero_grad()\<close>\<close>
  | Backward "('v, 'f) loss"        \<comment> \<open>\<^verbatim>\<open>loss.backward()\<close>\<close>
  | OptStep                   \<comment> \<open>\<^verbatim>\<open>optimizer.step()\<close>\<close>
  | LossesAppend 'f           \<comment> \<open>\<^verbatim>\<open>losses.append(loss.item())\<close>\<close>
  | BarUpdate nat             \<comment> \<open>\<^verbatim>\<open>progress_bar.update(n)\<close>\<close>
  | SetPostfix 'f             \<comment> \<open>\<^verbatim>\<open>progress_bar.set_postfix(loss=...)\<close>\<close>
  | SaveModel string          \<comment> \<open>\<^verbatim>\<open>model.save_pretrained(path)\<close>\<close>
  | SaveTokenizer string      \<comment> \<open>\<^verbatim>\<open>tokenizer.save_pretrained(path)\<close>\<close>
  | SaveProcessor string      \<comment> \<open>\<^verbatim>\<open>processor.save_pretrained(path)\<close>\<close>

text \<open>
  \<^verbatim>\<open>collections.deque(maxlen=n)\<close>: appending on the right of a full deque drops the leftmost
  item (the item is appended first and the deque is trimmed when it is longer than \<open>maxlen\<close>).
\<close>

record 'a deque =
  maxlen :: "nat option"
  items :: "'a list"

definition deque_new :: "nat option \<Rightarrow> 'a deque" where
  "deque_new n = \<lparr>maxlen = n, items = []\<rparr>"

definition deque_append :: "'a deque \<Rightarrow> 'a \<Rightarrow> 'a deque" where
  "deque_append d x =
     (let xs = items d @ [x]
      in case maxlen d of
           None \<Rightarrow> d\<lparr>items := xs\<rparr>
         | Some n \<Rightarrow> d\<lparr>items := (if n < length xs then tl xs else xs)\<rparr>)"

text \<open>
  Losses are floating-point numbers. The type \<open>'f\<close> stands for them, and \<^verbatim>\<open>np.mean\<close>, a
  library function on sequences of them, is a parameter like the other library behaviour.
\<close>

record ('v, 'f) env =
  loader :: "nat \<Rightarrow> (error + 'v batch) list"
  loader_len :: nat
  raises :: "('v, 'f) event list \<Rightarrow> ('v, 'f) event \<Rightarrow> error option"
  loss_value :: "('v, 'f) event list \<Rightarrow> 'v batch \<Rightarrow> 'f"
  np_mean :: "'f list \<Rightarrow> 'f"

record ('v, 'f) state =
  trace :: "('v, 'f) event list"
  losses :: "'f deque"

type_synonym ('v, 'f) outcome = "('v, 'f) state \<times> error option"

text \<open>Statements in sequence: the second runs only if the first raised nothing.\<close>

definition seq ::
  "(('v, 'f) state \<Rightarrow> ('v, 'f) outcome) \<Rightarrow> (('v, 'f) state \<Rightarrow> ('v, 'f) outcome) \<Rightarrow> ('v, 'f) state \<Rightarrow> ('v, 'f) outcome" where
  "seq f g s = (case f s of (s', None) \<Rightarrow> g s' | (s', Some e) \<Rightarrow> (s', Some e))"

text \<open>A library call: it raises, or it completes and joins the trace.\<close>

definition call :: "('v, 'f) env \<Rightarrow> ('v, 'f) event \<Rightarrow> ('v, 'f) state \<Rightarrow> ('v, 'f) outcome" where
  "call env ev s =
     (case raises env (trace s) ev of
        Some e \<Rightarrow> (s, Some e)
      | None \<Rightarrow> (s\<lparr>trace := trace s @ [ev]\<rparr>, None))"

definition losses_append :: "('v, 'f) env \<Rightarrow> 'f \<Rightarrow> ('v, 'f) state \<Rightarrow> ('v, 'f) outcome" where
  "losses_append env x s =
     (case call env (LossesAppend x) s of
        (s', None) \<Rightarrow> (s'\<lparr>losses := deque_append (losses s') x\<rparr>, None)
      | (s', Some e) \<Rightarrow> (s', Some e))"

definition set_postfix :: "('v, 'f) env \<Rightarrow> ('v, 'f) state \<Rightarrow> ('v, 'f) outcome" where
  "set_postfix env s = call env (SetPostfix (np_mean env (items (losses s)))) s"

text \<open>The body of the inner loop, one batch.\<close>

definition train_step :: "('v, 'f) env \<Rightarrow> 'v batch \<Rightarrow> ('v, 'f) state \<Rightarrow> ('v, 'f) outcome" where
  "train_step env batch s =
     (case pop batch ''meta_info'' of
        Inl e \<Rightarrow> (s, Some e)
      | Inr (meta, kwargs) \<Rightarrow>
          seq (call env ModelTrain)
            (\<lambda>s1. let loss = Loss kwargs (loss_value env (trace s1) kwargs)
                  in seq (call env (Forward kwargs))
                    (seq (call env ZeroGrad)
                    (seq (call env (Backward loss))
                    (seq (call env OptStep)
                    (seq (losses_append env (item loss))
                    (seq (call env (BarUpdate 1))
                         (set_postfix env)))))) s1) s)"

text \<open>
  \<^verbatim>\<open>for batch in train_dataloader\<close>: the items of one pass in order; an item the loader fails
  to produce (formatter, collator, file access) raises out of the loop.
\<close>

fun for_batches :: "('v, 'f) env \<Rightarrow> (error + 'v batch) list \<Rightarrow> ('v, 'f) state \<Rightarrow> ('v, 'f) outcome" where
  "for_batches env [] s = (s, None)"
| "for_batches env (Inl e # rest) s = (s, Some e)"
| "for_batches env (Inr batch # rest) s = seq (train_step env batch) (for_batches env rest) s"

text \<open>The body of the outer loop: one epoch and its checkpoint.\<close>

definition run_epoch :: "('v, 'f) env \<Rightarrow> nat \<Rightarrow> ('v, 'f) state \<Rightarrow> ('v, 'f) outcome" where
  "run_epoch env epoch =
     seq (call env (SetDescription (epoch + 1)))
    (seq (for_batches env (loader env epoch))
    (seq (call env (SaveModel ''./output''))
    (seq (call env (SaveTokenizer ''./output''))
         (call env (SaveProcessor ''./output'')))))"

fun for_epochs :: "('v, 'f) env \<Rightarrow> nat list \<Rightarrow> ('v, 'f) state \<Rightarrow> ('v, 'f) outcome" where
  "for_epochs env [] s = (s, None)"
| "for_epochs env (epoch # rest) s = seq (run_epoch env epoch) (for_epochs env rest) s"

text \<open>The cell: progress bar, deque, output directory, then \<^verbatim>\<open>for epoch in range(3)\<close>.\<close>

definition initial :: "('v, 'f) state" where
  "initial = \<lparr>trace = [], losses = deque_new (Some 100)\<rparr>"

definition train :: "('v, 'f) env \<Rightarrow> ('v, 'f) outcome" where
  "train env =
     seq (call env (Tqdm (3 * loader_len env)))
    (seq (call env (Makedirs ''./output''))
         (for_epochs env [0, 1, 2])) initial"

section \<open>Reading a trace\<close>

text \<open>The batch the model's forward call receives when \<open>batch\<close> came from the loader.\<close>

definition without_meta :: "'v batch \<Rightarrow> 'v batch" where
  "without_meta batch = batch(''meta_info'' := None)"

text \<open>The batches a pass yields before its first failure.\<close>

fun yielded :: "(error + 'v batch) list \<Rightarrow> 'v batch list" where
  "yielded [] = []"
| "yielded (Inl e # rest) = []"
| "yielded (Inr b # rest) = b # yielded rest"

fun forwards :: "('v, 'f) event list \<Rightarrow> 'v batch list" where
  "forwards [] = []"
| "forwards (Forward kw # t) = kw # forwards t"
| "forwards (_ # t) = forwards t"

fun is_save :: "('v, 'f) event \<Rightarrow> bool" where
  "is_save (SaveModel p) = True"
| "is_save (SaveTokenizer p) = True"
| "is_save (SaveProcessor p) = True"
| "is_save _ = False"

definition saves :: "('v, 'f) event list \<Rightarrow> ('v, 'f) event list" where
  "saves t = filter is_save t"

definition checkpoint :: "('v, 'f) event list" where
  "checkpoint = [SaveModel ''./output'', SaveTokenizer ''./output'', SaveProcessor ''./output'']"



text \<open>
  The gradient operations of a trace, and what the optimizer applies. The gradient buffer
  is read the way the tensor library defines it: \<^verbatim>\<open>zero_grad\<close> clears it, \<^verbatim>\<open>backward\<close> adds the
  gradient of the loss it is called on (named here by the batch the loss was computed
  from), and \<^verbatim>\<open>step\<close> applies what the buffer holds. \<open>steps_applied g t\<close> lists, for each
  \<^verbatim>\<open>step\<close> of \<open>t\<close>, the contributions in the buffer at that moment, starting from buffer \<open>g\<close>.
\<close>

datatype grad_op = GZeroGrad | GBackward | GStep

fun grad_ops :: "('v, 'f) event list \<Rightarrow> grad_op list" where
  "grad_ops [] = []"
| "grad_ops (ZeroGrad # t) = GZeroGrad # grad_ops t"
| "grad_ops (Backward l # t) = GBackward # grad_ops t"
| "grad_ops (OptStep # t) = GStep # grad_ops t"
| "grad_ops (_ # t) = grad_ops t"

fun steps_applied :: "'v batch list \<Rightarrow> ('v, 'f) event list \<Rightarrow> 'v batch list list" where
  "steps_applied g [] = []"
| "steps_applied g (ZeroGrad # t) = steps_applied [] t"
| "steps_applied g (Backward l # t) = steps_applied (g @ [graph l]) t"
| "steps_applied g (OptStep # t) = g # steps_applied g t"
| "steps_applied g (_ # t) = steps_applied g t"

fun grad_buffer :: "'v batch list \<Rightarrow> ('v, 'f) event list \<Rightarrow> 'v batch list" where
  "grad_buffer g [] = g"
| "grad_buffer g (ZeroGrad # t) = grad_buffer [] t"
| "grad_buffer g (Backward l # t) = grad_buffer (g @ [graph l]) t"
| "grad_buffer g (_ # t) = grad_buffer g t"

text \<open>The batches of the three passes, in the order the loop meets them.\<close>

definition all_batches :: "('v, 'f) env \<Rightarrow> 'v batch list" where
  "all_batches env = concat (map (\<lambda>epoch. yielded (loader env epoch)) [0, 1, 2])"

text \<open>
  A segment \<open>t\<close> of the trace is a full pass over the loader's items \<open>xs\<close>: every item was
  yielded, the forward calls of \<open>t\<close> are the yielded batches in order (each without its
  metadata), and \<open>t\<close> contains no checkpoint call.
\<close>

definition full_pass :: "(error + 'v batch) list \<Rightarrow> ('v, 'f) event list \<Rightarrow> bool" where
  "full_pass xs t \<longleftrightarrow>
     xs = map Inr (yielded xs) \<and> forwards t = map without_meta (yielded xs) \<and> saves t = []"

section \<open>Shapes of traces\<close>

text \<open>The calls of one completed iteration on keyword arguments \<open>kw\<close>.\<close>

definition step_events :: "'v batch \<Rightarrow> 'f \<Rightarrow> 'f \<Rightarrow> ('v, 'f) event list" where
  "step_events kw x m =
     [ModelTrain, Forward kw, ZeroGrad, Backward (Loss kw x), OptStep, LossesAppend x,
      BarUpdate 1, SetPostfix m]"

text \<open>The last three statements of the loop body, as one block.\<close>

definition report :: "('v, 'f) env \<Rightarrow> 'f \<Rightarrow> ('v, 'f) state \<Rightarrow> ('v, 'f) outcome" where
  "report env x = seq (losses_append env x) (seq (call env (BarUpdate 1)) (set_postfix env))"

inductive steps_trace :: "'v batch list \<Rightarrow> ('v, 'f) event list \<Rightarrow> bool" where
  steps_none: "steps_trace [] []"
| steps_more: "steps_trace kws t \<Longrightarrow> steps_trace (kw # kws) (step_events kw x m @ t)"

inductive epochs_trace :: "('v, 'f) env \<Rightarrow> nat list \<Rightarrow> ('v, 'f) event list \<Rightarrow> bool" where
  epochs_none: "epochs_trace env [] []"
| epochs_more:
    "steps_trace (map without_meta (yielded (loader env epoch))) t \<Longrightarrow>
     loader env epoch = map Inr (yielded (loader env epoch)) \<Longrightarrow>
     \<forall>b \<in> set (yielded (loader env epoch)). b ''meta_info'' \<noteq> None \<Longrightarrow>
     epochs_trace env rest u \<Longrightarrow>
     epochs_trace env (epoch # rest) (SetDescription (epoch + 1) # t @ checkpoint @ u)"

section \<open>Invariants and failures\<close>

text \<open>\<open>preserves I f\<close>: the statement \<open>f\<close> keeps \<open>I\<close>, whether it completes or raises.\<close>

definition preserves :: "(('v, 'f) state \<Rightarrow> bool) \<Rightarrow> (('v, 'f) state \<Rightarrow> ('v, 'f) outcome) \<Rightarrow> bool" where
  "preserves I f = (\<forall>s. I s \<longrightarrow> I (fst (f s)))"

text \<open>Calls that touch neither the deque nor the displayed loss.\<close>

fun plain :: "('v, 'f) event \<Rightarrow> bool" where
  "plain (LossesAppend x) = False"
| "plain (SetPostfix m) = False"
| "plain _ = True"

text \<open>No call of the trace raised at the moment it was made.\<close>

definition clean :: "('v, 'f) env \<Rightarrow> ('v, 'f) event list \<Rightarrow> bool" where
  "clean env t \<longleftrightarrow> (\<forall>pre ev post. t = pre @ ev # post \<longrightarrow> raises env pre ev = None)"

text \<open>
  The error \<open>e\<close> comes from an item of a pass: the loader failed with \<open>e\<close> on an item, or
  \<open>e\<close> is the \<^verbatim>\<open>KeyError\<close> of \<^verbatim>\<open>batch.pop('meta_info')\<close> on a yielded batch without that key.
\<close>

definition failed_item :: "(error + 'v batch) list \<Rightarrow> error \<Rightarrow> bool" where
  "failed_item xs e \<longleftrightarrow>
     Inl e \<in> set xs
     \<or> (e = KeyError ''meta_info'' \<and> (\<exists>b. Inr b \<in> set xs \<and> b ''meta_info'' = None))"

text \<open>No library call ever raises; every item of a pass is a batch with a metadata field.\<close>

definition never_raises :: "('v, 'f) env \<Rightarrow> bool" where
  "never_raises env \<longleftrightarrow> (\<forall>t ev. raises env t ev = None)"

definition yields_batches :: "(error + 'v batch) list \<Rightarrow> bool" where
  "yields_batches xs \<longleftrightarrow> (\<forall>x \<in> set xs. \<exists>b. x = Inr b \<and> b ''meta_info'' \<noteq> None)"



section \<open>The run in which no call raises\<close>

text \<open>
  \<open>quiet env\<close> is \<open>env\<close> with libraries of which no call raises: the same loader, the same
  losses, the same \<^verbatim>\<open>np.mean\<close>. The trace of its run lists the calls the loop makes, in order,
  as long as the loader yields batches with a metadata field.
\<close>

definition quiet :: "('v, 'f) env \<Rightarrow> ('v, 'f) env" where
  "quiet env = env\<lparr>raises := (\<lambda>t ev. None)\<rparr>"

text \<open>
  The error of the first item of a pass that is not a batch with a metadata field: the
  loader's error on it, or the \<^verbatim>\<open>KeyError\<close> of \<^verbatim>\<open>batch.pop('meta_info')\<close>.
\<close>

fun first_item_error :: "(error + 'v batch) list \<Rightarrow> error option" where
  "first_item_error [] = None"
| "first_item_error (Inl e # rest) = Some e"
| "first_item_error (Inr b # rest) =
     (if b ''meta_info'' = None then Some (KeyError ''meta_info'') else first_item_error rest)"

text \<open>
  The first call of a list that raises when the calls are made in turn after \<open>t0\<close>: the calls
  completed before it, and its error.
\<close>

fun first_raise ::
  "('v, 'f) env \<Rightarrow> ('v, 'f) event list \<Rightarrow> ('v, 'f) event list
     \<Rightarrow> (('v, 'f) event list \<times> error) option" where
  "first_raise env t0 [] = None"
| "first_raise env t0 (ev # t) =
     (case raises env t0 ev of
        Some e \<Rightarrow> Some ([], e)
      | None \<Rightarrow>
          (case first_raise env (t0 @ [ev]) t of
             None \<Rightarrow> None
           | Some (pre, e) \<Rightarrow> Some (ev # pre, e)))"

text \<open>
  A statement \<open>f\<close> against the same statement \<open>fq\<close> of the quiet run, from a state \<open>s\<close>: if no
  call that \<open>fq\<close> makes raises in \<open>env\<close>, \<open>f\<close> does what \<open>fq\<close> does; otherwise \<open>f\<close> stops at the
  first one that raises, with its error.
\<close>

definition sim_at ::
  "('v, 'f) env \<Rightarrow> (('v, 'f) state \<Rightarrow> ('v, 'f) outcome) \<Rightarrow> (('v, 'f) state \<Rightarrow> ('v, 'f) outcome)
     \<Rightarrow> ('v, 'f) state \<Rightarrow> bool" where
  "sim_at env f fq s \<longleftrightarrow>
     (\<exists>tq. trace (fst (fq s)) = trace s @ tq
        \<and> (case first_raise env (trace s) tq of
              None \<Rightarrow> f s = fq s
            | Some (pre, e) \<Rightarrow> snd (f s) = Some e \<and> trace (fst (f s)) = trace s @ pre))"

section \<open>What the progress bar is told\<close>







section \<open>Concrete inputs\<close>

text \<open>
  Two objects' \<^verbatim>\<open>convert\<close> methods, with a counter as the world: one returns the object it is
  called on and changes nothing; the other counts its calls and returns a different object
  each time.
\<close>

definition keep_pixels :: "(nat, nat) py_method" where
  "keep_pixels w ob mode = (Inr (PyObject ob), w)"


definition example_sample :: "nat raw_sample" where
  "example_sample =
     [''prompt'' \<mapsto> PyStr ''What is shown?'', ''response'' \<mapsto> PyStr ''A cat.'',
      ''image'' \<mapsto> PyObject 7]"



text \<open>A sample that has all three keys, with \<^verbatim>\<open>None\<close> under \<^verbatim>\<open>image\<close>.\<close>

definition text_only_sample :: "nat raw_sample" where
  "text_only_sample =
     [''prompt'' \<mapsto> PyStr ''What is shown?'', ''response'' \<mapsto> PyStr ''A cat.'',
      ''image'' \<mapsto> PyNone]"

text \<open>A sample with a prompt only.\<close>

definition prompt_only_sample :: "nat raw_sample" where
  "prompt_only_sample = [''prompt'' \<mapsto> PyStr ''What is shown?'']"

text \<open>
  A numeric library that computes the mean exactly, over the reals as loss values.
\<close>

definition exact_mean :: "real list \<Rightarrow> real" where
  "exact_mean xs = sum_list xs / real (length xs)"

text \<open>
  A loader that yields one batch per pass, with libraries that never raise; and the same
  with a model whose forward call always raises.
\<close>

definition example_batch :: "nat batch" where
  "example_batch = [''input_ids'' \<mapsto> 1, ''attention_mask'' \<mapsto> 2, ''meta_info'' \<mapsto> 3]"

definition example_env :: "(nat, real) env" where
  "example_env =
     \<lparr>loader = (\<lambda>epoch. [Inr example_batch]), loader_len = 1,
      raises = (\<lambda>t ev. None), loss_value = (\<lambda>t kw. 1 / 2), np_mean = exact_mean\<rparr>"

definition forward_failing_env :: "(nat, real) env" where
  "forward_failing_env =
     \<lparr>loader = (\<lambda>epoch. [Inr example_batch]), loader_len = 1,
      raises = (\<lambda>t ev. case ev of Forward kw \<Rightarrow> Some (LibraryError ''shape mismatch'')
                               | _ \<Rightarrow> None),
      loss_value = (\<lambda>t kw. 1 / 2), np_mean = exact_mean\<rparr>"


section \<open>Lemmas\<close>

subsection \<open>Outcomes of the statements\<close>

lemma seq_None: "seq f g s = (s'', None) \<longleftrightarrow> (\<exists>s'. f s = (s', None) \<and> g s' = (s'', None))"
  by (auto simp: seq_def split: prod.splits option.splits)

lemma seq_Some:
  "seq f g s = (s'', Some e) \<longleftrightarrow>
     f s = (s'', Some e) \<or> (\<exists>s'. f s = (s', None) \<and> g s' = (s'', Some e))"
  by (auto simp: seq_def split: prod.splits option.splits)

lemma call_None:
  "call env ev s = (s', None) \<longleftrightarrow>
     raises env (trace s) ev = None \<and> s' = s\<lparr>trace := trace s @ [ev]\<rparr>"
  by (auto simp: call_def split: option.splits)

lemma call_Some:
  "call env ev s = (s', Some e) \<longleftrightarrow> raises env (trace s) ev = Some e \<and> s' = s"
  by (auto simp: call_def split: option.splits)

lemma losses_append_None:
  "losses_append env x s = (s', None) \<longleftrightarrow>
     raises env (trace s) (LossesAppend x) = None
     \<and> s' = s\<lparr>trace := trace s @ [LossesAppend x], losses := deque_append (losses s) x\<rparr>"
  by (auto simp: losses_append_def call_def split: option.splits)

lemma losses_append_Some:
  "losses_append env x s = (s', Some e) \<longleftrightarrow>
     raises env (trace s) (LossesAppend x) = Some e \<and> s' = s"
  by (auto simp: losses_append_def call_def split: option.splits)

lemma pop_Inr: "pop d k = Inr (v, d') \<longleftrightarrow> d k = Some v \<and> d' = d(k := None)"
  by (auto simp: pop_def split: option.splits)

lemma pop_Inl: "pop d k = Inl e \<longleftrightarrow> d k = None \<and> e = KeyError k"
  by (auto simp: pop_def split: option.splits)

lemma train_step_report:
  "train_step env batch s =
     (case pop batch ''meta_info'' of
        Inl e \<Rightarrow> (s, Some e)
      | Inr (meta, kwargs) \<Rightarrow>
          seq (call env ModelTrain)
            (\<lambda>s1. let loss = Loss kwargs (loss_value env (trace s1) kwargs)
                  in seq (call env (Forward kwargs))
                    (seq (call env ZeroGrad)
                    (seq (call env (Backward loss))
                    (seq (call env OptStep)
                         (report env (item loss))))) s1) s)"
  unfolding train_step_def report_def by (rule refl)

lemma report_None:
  "report env x s = (s', None) \<Longrightarrow>
     trace s' = trace s @ [LossesAppend x, BarUpdate 1, SetPostfix (np_mean env (items (losses s')))]
     \<and> losses s' = deque_append (losses s) x"
  by (auto simp: report_def seq_None losses_append_None call_None set_postfix_def)

lemma train_step_None:
  assumes "train_step env b s = (s', None)"
  shows "\<exists>x. b ''meta_info'' \<noteq> None
     \<and> trace s' = trace s @ step_events (without_meta b) x (np_mean env (items (losses s')))
     \<and> losses s' = deque_append (losses s) x"
  using assms
  by (auto simp: train_step_report pop_Inr seq_None call_None Let_def step_events_def
      without_meta_def split: sum.splits prod.splits dest!: report_None)

subsection \<open>The trace of a completed run\<close>

lemma for_batches_None:
  "for_batches env xs s = (s', None) \<Longrightarrow>
     \<exists>t. trace s' = trace s @ t \<and> steps_trace (map without_meta (yielded xs)) t
       \<and> xs = map Inr (yielded xs) \<and> (\<forall>b \<in> set (yielded xs). b ''meta_info'' \<noteq> None)"
proof (induction env xs s rule: for_batches.induct)
  case (1 env s)
  then show ?case by (simp add: steps_none)
next
  case (2 env e rest s)
  then show ?case by simp
next
  case (3 env batch rest s)
  from "3.prems" obtain s1 where
    step: "train_step env batch s = (s1, None)" and rest: "for_batches env rest s1 = (s', None)"
    by (auto simp: seq_None)
  from train_step_None [OF step] obtain x where
    meta: "batch ''meta_info'' \<noteq> None" and
    tr: "trace s1 = trace s @ step_events (without_meta batch) x (np_mean env (items (losses s1)))"
    by blast
  from "3.IH" [OF rest] obtain t where
    t: "trace s' = trace s1 @ t" "steps_trace (map without_meta (yielded rest)) t"
      "rest = map Inr (yielded rest)" "\<forall>b \<in> set (yielded rest). b ''meta_info'' \<noteq> None"
    by blast
  have "steps_trace (map without_meta (yielded (Inr batch # rest)))
          (step_events (without_meta batch) x (np_mean env (items (losses s1))) @ t)"
    using t(2) by (simp add: steps_more)
  moreover have "trace s' = trace s @ step_events (without_meta batch) x (np_mean env (items (losses s1))) @ t"
    using t(1) tr by simp
  moreover have "Inr batch # rest = map Inr (yielded (Inr batch # rest))"
    using t(3) by simp
  ultimately show ?case using meta t(4) by (intro exI conjI) (assumption | simp)+
qed

lemma run_epoch_None:
  assumes "run_epoch env epoch s = (s', None)"
  shows "\<exists>t. trace s' = trace s @ SetDescription (epoch + 1) # t @ checkpoint
       \<and> steps_trace (map without_meta (yielded (loader env epoch))) t
       \<and> loader env epoch = map Inr (yielded (loader env epoch))
       \<and> (\<forall>b \<in> set (yielded (loader env epoch)). b ''meta_info'' \<noteq> None)"
proof -
  from assms obtain s1 s2 where
    d: "call env (SetDescription (epoch + 1)) s = (s1, None)" and
    b: "for_batches env (loader env epoch) s1 = (s2, None)" and
    c: "trace s' = trace s2 @ checkpoint"
    by (auto simp: run_epoch_def seq_None call_None checkpoint_def)
  from for_batches_None [OF b] obtain t where
    t: "trace s2 = trace s1 @ t" "steps_trace (map without_meta (yielded (loader env epoch))) t"
      "loader env epoch = map Inr (yielded (loader env epoch))"
      "\<forall>b \<in> set (yielded (loader env epoch)). b ''meta_info'' \<noteq> None"
    by blast
  from d have "trace s1 = trace s @ [SetDescription (epoch + 1)]"
    by (auto simp: call_None)
  with c t show ?thesis by auto
qed

lemma for_epochs_None:
  "for_epochs env es s = (s', None) \<Longrightarrow>
     \<exists>u. trace s' = trace s @ u \<and> epochs_trace env es u"
proof (induction env es s rule: for_epochs.induct)
  case (1 env s)
  then show ?case by (simp add: epochs_none)
next
  case (2 env epoch rest s)
  from "2.prems" obtain s1 where
    e: "run_epoch env epoch s = (s1, None)" and r: "for_epochs env rest s1 = (s', None)"
    by (auto simp: seq_None)
  from run_epoch_None [OF e] obtain t where
    t: "trace s1 = trace s @ SetDescription (epoch + 1) # t @ checkpoint"
      "steps_trace (map without_meta (yielded (loader env epoch))) t"
      "loader env epoch = map Inr (yielded (loader env epoch))"
      "\<forall>b \<in> set (yielded (loader env epoch)). b ''meta_info'' \<noteq> None"
    by blast
  from "2.IH" [OF r] obtain u where u: "trace s' = trace s1 @ u" "epochs_trace env rest u"
    by blast
  have "epochs_trace env (epoch # rest) (SetDescription (epoch + 1) # t @ checkpoint @ u)"
    using t(2,3,4) u(2) by (rule epochs_more)
  moreover have "trace s' = trace s @ SetDescription (epoch + 1) # t @ checkpoint @ u"
    using t(1) u(1) by simp
  ultimately show ?case by blast
qed

lemma train_None:
  assumes "train env = (s, None)"
  shows "\<exists>u. trace s = Tqdm (3 * loader_len env) # Makedirs ''./output'' # u
           \<and> epochs_trace env [0, 1, 2] u"
proof -
  from assms obtain s1 s2 where
    a: "call env (Tqdm (3 * loader_len env)) initial = (s1, None)" and
    b: "call env (Makedirs ''./output'') s1 = (s2, None)" and
    r: "for_epochs env [0, 1, 2] s2 = (s, None)"
    unfolding train_def seq_None by blast
  from a b have i: "trace s2 = [Tqdm (3 * loader_len env), Makedirs ''./output'']"
    by (auto simp: call_None initial_def)
  from for_epochs_None [OF r] i show ?thesis by auto
qed

subsection \<open>Reading the trace of a completed run\<close>

lemma forwards_append: "forwards (a @ b) = forwards a @ forwards b"
  by (induction a rule: forwards.induct) simp_all

lemma saves_append: "saves (a @ b) = saves a @ saves b"
  by (simp add: saves_def)

lemma grad_ops_append: "grad_ops (a @ b) = grad_ops a @ grad_ops b"
  by (induction a rule: grad_ops.induct) simp_all


lemma steps_applied_append:
  "steps_applied g (a @ b) = steps_applied g a @ steps_applied (grad_buffer g a) b"
  by (induction g a rule: steps_applied.induct) simp_all

lemma steps_trace_forwards: "steps_trace kws t \<Longrightarrow> forwards t = kws"
  by (induction rule: steps_trace.induct) (simp_all add: step_events_def)

lemma steps_trace_saves: "steps_trace kws t \<Longrightarrow> saves t = []"
  by (induction rule: steps_trace.induct) (simp_all add: step_events_def saves_def)

lemma steps_trace_grad_ops:
  "steps_trace kws t \<Longrightarrow> grad_ops t = concat (map (\<lambda>kw. [GZeroGrad, GBackward, GStep]) kws)"
  by (induction rule: steps_trace.induct) (simp_all add: step_events_def)

lemma steps_trace_steps_applied:
  "steps_trace kws t \<Longrightarrow> steps_applied g t = map (\<lambda>kw. [kw]) kws"
  by (induction arbitrary: g rule: steps_trace.induct) (simp_all add: step_events_def)

lemma saves_checkpoint: "saves checkpoint = checkpoint"
  by (simp add: saves_def checkpoint_def)

lemma forwards_checkpoint: "forwards checkpoint = []"
  by (simp add: checkpoint_def)

lemma grad_ops_checkpoint: "grad_ops checkpoint = []"
  by (simp add: checkpoint_def)

lemma steps_applied_checkpoint: "steps_applied g checkpoint = []"
  by (simp add: checkpoint_def)

lemma grad_buffer_checkpoint: "grad_buffer g checkpoint = g"
  by (simp add: checkpoint_def)

lemma saves_Nil: "saves [] = []"
  by (simp add: saves_def)

lemma saves_Cons: "saves (e # t) = (if is_save e then e # saves t else saves t)"
  by (simp add: saves_def)

lemma epochs_trace_forwards:
  "epochs_trace env es u \<Longrightarrow>
     forwards u = concat (map (\<lambda>epoch. map without_meta (yielded (loader env epoch))) es)"
  by (induction rule: epochs_trace.induct)
    (simp_all add: forwards_append forwards_checkpoint steps_trace_forwards)

lemma epochs_trace_saves:
  "epochs_trace env es u \<Longrightarrow> saves u = concat (map (\<lambda>epoch. checkpoint) es)"
  by (induction rule: epochs_trace.induct)
    (simp_all add: saves_append saves_checkpoint steps_trace_saves saves_Cons saves_Nil)

lemma epochs_trace_grad_ops:
  "epochs_trace env es u \<Longrightarrow>
     grad_ops u = concat (map (\<lambda>kw. [GZeroGrad, GBackward, GStep]) (forwards u))"
  by (induction rule: epochs_trace.induct)
    (simp_all add: grad_ops_append grad_ops_checkpoint forwards_append forwards_checkpoint
      steps_trace_grad_ops steps_trace_forwards)

lemma epochs_trace_steps_applied:
  "epochs_trace env es u \<Longrightarrow> steps_applied g u = map (\<lambda>kw. [kw]) (forwards u)"
  by (induction arbitrary: g rule: epochs_trace.induct)
    (simp_all add: steps_applied_append steps_applied_checkpoint grad_buffer_checkpoint forwards_append
      forwards_checkpoint steps_trace_steps_applied steps_trace_forwards)

inductive_cases epochs_trace_ConsE: "epochs_trace env (epoch # rest) u"

inductive_cases epochs_trace_NilE: "epochs_trace env [] u"

lemma epochs_trace_three:
  assumes "epochs_trace env [a, b, c] u"
  shows "\<exists>t0 t1 t2.
     u = SetDescription (a + 1) # t0 @ checkpoint @ SetDescription (b + 1) # t1 @ checkpoint
           @ SetDescription (c + 1) # t2 @ checkpoint
     \<and> full_pass (loader env a) t0 \<and> full_pass (loader env b) t1 \<and> full_pass (loader env c) t2"
proof -
  from assms obtain t0 u0 where
    0: "u = SetDescription (a + 1) # t0 @ checkpoint @ u0"
      "steps_trace (map without_meta (yielded (loader env a))) t0"
      "loader env a = map Inr (yielded (loader env a))" "epochs_trace env [b, c] u0"
    by (auto elim: epochs_trace_ConsE)
  from 0(4) obtain t1 u1 where
    1: "u0 = SetDescription (b + 1) # t1 @ checkpoint @ u1"
      "steps_trace (map without_meta (yielded (loader env b))) t1"
      "loader env b = map Inr (yielded (loader env b))" "epochs_trace env [c] u1"
    by (auto elim: epochs_trace_ConsE)
  from 1(4) obtain t2 u2 where
    2: "u1 = SetDescription (c + 1) # t2 @ checkpoint @ u2"
      "steps_trace (map without_meta (yielded (loader env c))) t2"
      "loader env c = map Inr (yielded (loader env c))" "epochs_trace env [] u2"
    by (auto elim: epochs_trace_ConsE)
  from 2(4) have "u2 = []" by (auto elim: epochs_trace_NilE)
  with 0 1 2 show ?thesis
    by (intro exI [of _ t0] exI [of _ t1] exI [of _ t2])
      (simp add: full_pass_def steps_trace_forwards steps_trace_saves)
qed

subsection \<open>The deque as a window\<close>






lemma snoc_eq_append_Cons:
  "xs @ [x] = ys @ y # zs \<longleftrightarrow>
     (zs = [] \<and> xs = ys \<and> x = y) \<or> (\<exists>zs'. zs = zs' @ [x] \<and> xs = ys @ y # zs')"
  by (cases zs rule: rev_cases) auto

subsection \<open>Invariants of every run\<close>

lemma preserves_seq: "preserves I f \<Longrightarrow> preserves I g \<Longrightarrow> preserves I (seq f g)"
  by (auto simp: preserves_def seq_def split: prod.splits option.splits)

lemma preserves_seq_dep:
  "preserves I f \<Longrightarrow> (\<And>s1. preserves I (h s1)) \<Longrightarrow> preserves I (seq f (\<lambda>s1. h s1 s1))"
  by (auto simp: preserves_def seq_def split: prod.splits option.splits)

lemma train_step_preserves:
  assumes plain: "\<And>ev. plain ev \<Longrightarrow> preserves I (call env ev)"
    and rep: "\<And>x. preserves I (report env x)"
  shows "preserves I (train_step env b)"
proof (cases "pop b ''meta_info''")
  case (Inl e)
  then show ?thesis by (simp add: train_step_report preserves_def)
next
  case (Inr p)
  obtain meta kwargs where p: "p = (meta, kwargs)" by (cases p)
  have body: "preserves I
      (seq (call env (Forward kwargs))
        (seq (call env ZeroGrad)
          (seq (call env (Backward l))
            (seq (call env OptStep) (report env x)))))" for l x
    by (intro preserves_seq plain rep) simp_all
  have "preserves I (seq (call env ModelTrain)
      (\<lambda>s1. (let loss = Loss kwargs (loss_value env (trace s1) kwargs)
             in seq (call env (Forward kwargs))
                 (seq (call env ZeroGrad)
                   (seq (call env (Backward loss))
                     (seq (call env OptStep) (report env (item loss)))))) s1))"
    unfolding Let_def
    by (rule preserves_seq_dep [where h = "\<lambda>s1. seq (call env (Forward kwargs))
                 (seq (call env ZeroGrad)
                   (seq (call env (Backward (Loss kwargs (loss_value env (trace s1) kwargs))))
                     (seq (call env OptStep) (report env (item (Loss kwargs (loss_value env (trace s1) kwargs)))))))"])
      (simp_all add: plain body)
  then show ?thesis
    using Inr p by (simp add: train_step_report preserves_def)
qed

lemma for_batches_preserves:
  assumes plain: "\<And>ev. plain ev \<Longrightarrow> preserves I (call env ev)"
    and rep: "\<And>x. preserves I (report env x)"
  shows "preserves I (for_batches env xs)"
proof (induction xs)
  case Nil
  then show ?case by (simp add: preserves_def)
next
  case (Cons a xs)
  show ?case
  proof (cases a)
    case (Inl e)
    then show ?thesis by (simp add: preserves_def)
  next
    case (Inr b)
    have "preserves I (seq (train_step env b) (for_batches env xs))"
      using train_step_preserves [OF plain rep] Cons.IH by (rule preserves_seq)
    then show ?thesis using Inr by (simp add: preserves_def)
  qed
qed

lemma run_epoch_preserves:
  assumes plain: "\<And>ev. plain ev \<Longrightarrow> preserves I (call env ev)"
    and rep: "\<And>x. preserves I (report env x)"
  shows "preserves I (run_epoch env epoch)"
  unfolding run_epoch_def
  by (intro preserves_seq plain for_batches_preserves rep) simp_all

lemma for_epochs_preserves:
  assumes plain: "\<And>ev. plain ev \<Longrightarrow> preserves I (call env ev)"
    and rep: "\<And>x. preserves I (report env x)"
  shows "preserves I (for_epochs env es)"
proof (induction es)
  case Nil
  then show ?case by (simp add: preserves_def)
next
  case (Cons a es)
  have "preserves I (seq (run_epoch env a) (for_epochs env es))"
    using run_epoch_preserves [OF plain rep] Cons.IH by (rule preserves_seq)
  then show ?case by (simp add: preserves_def)
qed

lemma train_invariant:
  assumes plain: "\<And>ev. plain ev \<Longrightarrow> preserves I (call env ev)"
    and rep: "\<And>x. preserves I (report env x)"
    and init: "I initial"
  shows "I (fst (train env))"
proof -
  have "preserves I (seq (call env (Tqdm (3 * loader_len env)))
          (seq (call env (Makedirs ''./output'')) (for_epochs env [0, 1, 2])))"
    by (intro preserves_seq plain for_epochs_preserves rep) simp_all
  with init show ?thesis by (simp add: train_def preserves_def)
qed

subsection \<open>Where an error comes from\<close>

lemma report_Some:
  "report env x s = (s', Some e) \<Longrightarrow> \<exists>ev. raises env (trace s') ev = Some e"
  by (auto simp: report_def seq_Some losses_append_Some losses_append_None call_Some call_None
      set_postfix_def)

lemma train_step_Some:
  assumes "train_step env b s = (s', Some e)"
  shows "(\<exists>ev. raises env (trace s') ev = Some e)
     \<or> (e = KeyError ''meta_info'' \<and> b ''meta_info'' = None)"
proof (cases "pop b ''meta_info''")
  case (Inl e')
  with assms show ?thesis by (auto simp: train_step_report pop_Inl)
next
  case (Inr p)
  with assms have "\<exists>ev. raises env (trace s') ev = Some e"
    by (auto simp: train_step_report seq_Some seq_None call_Some call_None Let_def
        split: prod.splits dest: report_Some)
  then show ?thesis ..
qed

lemma for_batches_Some:
  "for_batches env xs s = (s', Some e) \<Longrightarrow>
     (\<exists>ev. raises env (trace s') ev = Some e) \<or> failed_item xs e"
proof (induction env xs s rule: for_batches.induct)
  case (1 env s)
  then show ?case by simp
next
  case (2 env e' rest s)
  then show ?case by (auto simp: failed_item_def)
next
  case (3 env batch rest s)
  from "3.prems" consider
    (step) "train_step env batch s = (s', Some e)"
    | (rest) s1 where "train_step env batch s = (s1, None)" "for_batches env rest s1 = (s', Some e)"
    by (auto simp: seq_Some)
  then show ?case
  proof cases
    case step
    from train_step_Some [OF step] show ?thesis by (auto simp: failed_item_def)
  next
    case rest
    from "3.IH" [OF rest(2)] show ?thesis by (auto simp: failed_item_def)
  qed
qed

lemma run_epoch_Some:
  assumes "run_epoch env epoch s = (s', Some e)"
  shows "(\<exists>ev. raises env (trace s') ev = Some e) \<or> failed_item (loader env epoch) e"
  using assms unfolding run_epoch_def seq_Some call_Some call_None
  by (auto dest: for_batches_Some)

lemma for_epochs_Some:
  "for_epochs env es s = (s', Some e) \<Longrightarrow>
     (\<exists>ev. raises env (trace s') ev = Some e) \<or> (\<exists>epoch \<in> set es. failed_item (loader env epoch) e)"
proof (induction env es s rule: for_epochs.induct)
  case (1 env s)
  then show ?case by simp
next
  case (2 env epoch rest s)
  from "2.prems" consider
    (here) "run_epoch env epoch s = (s', Some e)"
    | (later) s1 where "run_epoch env epoch s = (s1, None)" "for_epochs env rest s1 = (s', Some e)"
    by (auto simp: seq_Some)
  then show ?case
  proof cases
    case here
    from run_epoch_Some [OF here] show ?thesis by auto
  next
    case later
    from "2.IH" [OF later(2)] show ?thesis by auto
  qed
qed

lemma train_Some:
  assumes "train env = (s, Some e)"
  shows "(\<exists>ev. raises env (trace s) ev = Some e)
     \<or> (\<exists>epoch \<in> {0, 1, 2}. failed_item (loader env epoch) e)"
proof -
  from assms consider
    (a) "call env (Tqdm (3 * loader_len env)) initial = (s, Some e)"
    | (b) s1 where "call env (Makedirs ''./output'') s1 = (s, Some e)"
    | (c) s2 where "for_epochs env [0, 1, 2] s2 = (s, Some e)"
    unfolding train_def seq_Some by blast
  then show ?thesis
  proof cases
    case a
    then show ?thesis by (auto simp: call_Some)
  next
    case b
    then show ?thesis by (auto simp: call_Some)
  next
    case c
    from for_epochs_Some [OF c] show ?thesis by auto
  qed
qed

subsection \<open>No recorded call had raised\<close>

lemma clean_snoc: "clean env t \<Longrightarrow> raises env t ev = None \<Longrightarrow> clean env (t @ [ev])"
  by (auto simp: clean_def snoc_eq_append_Cons)

lemma call_preserves_clean: "preserves (\<lambda>s. clean env (trace s)) (call env ev)"
  by (auto simp: preserves_def call_def clean_snoc split: option.splits)

lemma losses_append_preserves_clean:
  "preserves (\<lambda>s. clean env (trace s)) (losses_append env x)"
  by (auto simp: preserves_def losses_append_def call_def clean_snoc split: option.splits)

lemma report_preserves_clean: "preserves (\<lambda>s. clean env (trace s)) (report env x)"
  unfolding report_def set_postfix_def
  by (intro preserves_seq_dep [where h = "\<lambda>s1. call env (SetPostfix (np_mean env (items (losses s1))))"]
      preserves_seq call_preserves_clean losses_append_preserves_clean)

lemma train_clean: "clean env (trace (fst (train env)))"
proof (rule train_invariant [where I = "\<lambda>s. clean env (trace s)"])
  show "clean env (trace initial)"
    by (simp add: initial_def clean_def)
qed (rule call_preserves_clean report_preserves_clean)+

subsection \<open>The displayed loss\<close>





lemma call_outcome:
  "call env ev s = (if raises env (trace s) ev = None then (s\<lparr>trace := trace s @ [ev]\<rparr>, None)
                    else (s, raises env (trace s) ev))"
  by (simp add: call_def split: option.splits)

lemma losses_append_outcome:
  "losses_append env x s =
     (if raises env (trace s) (LossesAppend x) = None
      then (s\<lparr>trace := trace s @ [LossesAppend x], losses := deque_append (losses s) x\<rparr>, None)
      else (s, raises env (trace s) (LossesAppend x)))"
  by (simp add: losses_append_def call_def split: option.splits)











subsection \<open>Running the loop on concrete inputs\<close>

lemmas run_simps =
  train_def seq_def call_def run_epoch_def train_step_def pop_def losses_append_def
  set_postfix_def deque_append_def deque_new_def exact_mean_def initial_def Let_def

lemma train_completed:
  assumes "snd (train env) = None"
  shows "\<exists>u. trace (fst (train env)) = Tqdm (3 * loader_len env) # Makedirs ''./output'' # u
           \<and> epochs_trace env [0, 1, 2] u"
  using assms train_None [of env "fst (train env)"] by (simp add: prod_eq_iff)

lemma train_completes:
  assumes "never_raises env" "yields_batches (loader env 0)" "yields_batches (loader env 1)"
    "yields_batches (loader env 2)"
  shows "snd (train env) = None"
proof (cases "snd (train env)")
  case None
  then show ?thesis .
next
  case (Some e)
  then have "train env = (fst (train env), Some e)" by (simp add: prod_eq_iff)
  from train_Some [OF this] assms show ?thesis
    by (auto simp: never_raises_def yields_batches_def failed_item_def)
qed

lemma yields_batchesI:
  "xs = map Inr (yielded xs) \<Longrightarrow> \<forall>b \<in> set (yielded xs). b ''meta_info'' \<noteq> None \<Longrightarrow>
     yields_batches xs"
  by (induction xs rule: yielded.induct) (auto simp: yields_batches_def)

lemma report_Some_trace:
  "report env x s = (s', Some e) \<Longrightarrow> \<exists>t. trace s' = trace s @ t \<and> forwards t = []"
  by (auto simp: report_def seq_Some losses_append_Some losses_append_None call_Some call_None
      set_postfix_def)

lemma train_step_Some_forwards:
  assumes "train_step env b s = (s', Some e)"
  shows "\<exists>t. trace s' = trace s @ t \<and> (forwards t = [] \<or> forwards t = [without_meta b])"
proof (cases "pop b ''meta_info''")
  case (Inl e')
  with assms show ?thesis by (auto simp: train_step_report)
next
  case (Inr p)
  with assms show ?thesis
    by (auto simp: train_step_report seq_Some seq_None call_Some call_None Let_def pop_Inr
        without_meta_def split: prod.splits dest!: report_Some_trace)
qed

lemma train_step_forwards:
  "\<exists>t. trace (fst (train_step env batch s)) = trace s @ t
       \<and> (forwards t = [] \<or> forwards t = [without_meta batch])
       \<and> (snd (train_step env batch s) = None \<longrightarrow> forwards t = [without_meta batch])"
proof (cases "snd (train_step env batch s)")
  case None
  then have "train_step env batch s = (fst (train_step env batch s), None)"
    by (simp add: prod_eq_iff)
  from train_step_None [OF this] show ?thesis
    by (auto simp: step_events_def)
next
  case (Some e)
  then have "train_step env batch s = (fst (train_step env batch s), Some e)"
    by (simp add: prod_eq_iff)
  from train_step_Some_forwards [OF this] Some show ?thesis by auto
qed

subsection \<open>A raising call ends the run\<close>

lemma quiet_simps:
  "raises (quiet env) t ev = None" "loader (quiet env) = loader env"
  "loader_len (quiet env) = loader_len env" "loss_value (quiet env) = loss_value env"
  "np_mean (quiet env) = np_mean env"
  by (simp_all add: quiet_def)

lemma first_raise_append:
  "first_raise env t0 (a @ b) =
     (case first_raise env t0 a of
        Some r \<Rightarrow> Some r
      | None \<Rightarrow>
          (case first_raise env (t0 @ a) b of
             None \<Rightarrow> None
           | Some (pre, e) \<Rightarrow> Some (a @ pre, e)))"
  by (induction a arbitrary: t0) (auto split: option.splits)

lemma first_raise_None_iff:
  "first_raise env t0 t = None \<longleftrightarrow>
     (\<forall>pre ev post. t = pre @ ev # post \<longrightarrow> raises env (t0 @ pre) ev = None)"
proof (induction t arbitrary: t0)
  case Nil
  then show ?case by simp
next
  case (Cons a t)
  show ?case
  proof
    assume l: "first_raise env t0 (a # t) = None"
    then have r: "raises env t0 a = None" and f: "first_raise env (t0 @ [a]) t = None"
      by (auto split: option.splits)
    show "\<forall>pre ev post. a # t = pre @ ev # post \<longrightarrow> raises env (t0 @ pre) ev = None"
    proof (intro allI impI)
      fix pre ev post
      assume eq: "a # t = pre @ ev # post"
      show "raises env (t0 @ pre) ev = None"
      proof (cases pre)
        case Nil
        with eq r show ?thesis by simp
      next
        case (Cons p pre')
        with eq have "t = pre' @ ev # post" "p = a" by simp_all
        with f Cons.IH [of "t0 @ [a]"] Cons show ?thesis by simp
      qed
    qed
  next
    assume r: "\<forall>pre ev post. a # t = pre @ ev # post \<longrightarrow> raises env (t0 @ pre) ev = None"
    then have "raises env (t0 @ []) a = None" by blast
    then have r0: "raises env t0 a = None" by simp
    have "\<forall>pre ev post. t = pre @ ev # post \<longrightarrow> raises env ((t0 @ [a]) @ pre) ev = None"
    proof (intro allI impI)
      fix pre ev post
      assume "t = pre @ ev # post"
      then have "a # t = (a # pre) @ ev # post" by simp
      with r have "raises env (t0 @ a # pre) ev = None" by blast
      then show "raises env ((t0 @ [a]) @ pre) ev = None" by simp
    qed
    with Cons.IH [of "t0 @ [a]"] have "first_raise env (t0 @ [a]) t = None" by simp
    with r0 show "first_raise env t0 (a # t) = None" by simp
  qed
qed

lemma first_raise_clean: "first_raise env [] t = None \<longleftrightarrow> clean env t"
  by (simp add: first_raise_None_iff clean_def)

lemma first_raise_at:
  assumes "clean env pre" "raises env pre ev = Some e"
  shows "first_raise env [] (pre @ ev # post) = Some (pre, e)"
  using assms by (simp add: first_raise_append first_raise_clean [symmetric])

lemma seq_fail: "snd (f s) = Some e \<Longrightarrow> seq f g s = f s"
  by (cases "f s") (simp add: seq_def)

lemma seq_ok: "f s = (s1, None) \<Longrightarrow> seq f g s = g s1"
  by (simp add: seq_def)

lemma sim_at_seq:
  assumes f: "sim_at env f fq s"
    and g: "\<And>s1. fq s = (s1, None) \<Longrightarrow> sim_at env g gq s1"
  shows "sim_at env (seq f g) (seq fq gq) s"
proof -
  from f obtain t1 where
    t1: "trace (fst (fq s)) = trace s @ t1" and
    c1: "case first_raise env (trace s) t1 of
           None \<Rightarrow> f s = fq s
         | Some (pre, e) \<Rightarrow> snd (f s) = Some e \<and> trace (fst (f s)) = trace s @ pre"
    unfolding sim_at_def by blast
  obtain sq1 r1 where q: "fq s = (sq1, r1)" by (cases "fq s")
  show ?thesis
  proof (cases r1)
    case (Some e1)
    with q have sq: "seq fq gq s = fq s" by (simp add: seq_fail)
    show ?thesis
    proof (cases "first_raise env (trace s) t1")
      case None
      with c1 have "f s = fq s" by simp
      with q Some have "seq f g s = fq s" by (simp add: seq_fail)
      with sq t1 None show ?thesis unfolding sim_at_def by (intro exI [of _ t1]) simp
    next
      case (Some pe)
      obtain pre e where pe: "pe = (pre, e)" by (cases pe)
      with c1 Some have fe: "snd (f s) = Some e" "trace (fst (f s)) = trace s @ pre" by simp_all
      then have "seq f g s = f s" by (simp add: seq_fail)
      with sq t1 Some pe fe show ?thesis unfolding sim_at_def by (intro exI [of _ t1]) simp
    qed
  next
    case None
    with q have q1: "fq s = (sq1, None)" by simp
    then have sq: "seq fq gq s = gq sq1" by (rule seq_ok)
    from t1 q1 have tr1: "trace sq1 = trace s @ t1" by simp
    from g [OF q1] obtain t2 where
      t2: "trace (fst (gq sq1)) = trace sq1 @ t2" and
      c2: "case first_raise env (trace sq1) t2 of
             None \<Rightarrow> g sq1 = gq sq1
           | Some (pre, e) \<Rightarrow> snd (g sq1) = Some e \<and> trace (fst (g sq1)) = trace sq1 @ pre"
      unfolding sim_at_def by blast
    have ext: "trace (fst (seq fq gq s)) = trace s @ (t1 @ t2)"
      using sq t2 tr1 by simp
    show ?thesis
    proof (cases "first_raise env (trace s) t1")
      case (Some pe)
      obtain pre e where pe: "pe = (pre, e)" by (cases pe)
      with c1 Some have fe: "snd (f s) = Some e" "trace (fst (f s)) = trace s @ pre" by simp_all
      then have "seq f g s = f s" by (simp add: seq_fail)
      moreover have "first_raise env (trace s) (t1 @ t2) = Some (pre, e)"
        using Some pe by (simp add: first_raise_append)
      ultimately show ?thesis
        using ext fe unfolding sim_at_def by (intro exI [of _ "t1 @ t2"]) simp
    next
      case n1: None
      with c1 q1 have "f s = (sq1, None)" by simp
      then have sf: "seq f g s = g sq1" by (rule seq_ok)
      show ?thesis
      proof (cases "first_raise env (trace sq1) t2")
        case None
        with c2 have "g sq1 = gq sq1" by simp
        moreover have "first_raise env (trace s) (t1 @ t2) = None"
          using n1 None tr1 by (simp add: first_raise_append)
        ultimately show ?thesis
          using ext sf sq unfolding sim_at_def by (intro exI [of _ "t1 @ t2"]) simp
      next
        case (Some pe)
        obtain pre e where pe: "pe = (pre, e)" by (cases pe)
        with c2 Some have ge: "snd (g sq1) = Some e" "trace (fst (g sq1)) = trace sq1 @ pre"
          by simp_all
        moreover have "first_raise env (trace s) (t1 @ t2) = Some (t1 @ pre, e)"
          using n1 Some pe tr1 by (simp add: first_raise_append)
        ultimately show ?thesis
          using ext sf tr1 unfolding sim_at_def by (intro exI [of _ "t1 @ t2"]) simp
      qed
    qed
  qed
qed

lemma sim_at_call: "sim_at env (call env ev) (call (quiet env) ev) s"
  unfolding sim_at_def
  by (intro exI [of _ "[ev]"]) (simp add: call_outcome quiet_simps split: option.splits)

lemma sim_at_losses_append:
  "sim_at env (losses_append env x) (losses_append (quiet env) x) s"
  unfolding sim_at_def
  by (intro exI [of _ "[LossesAppend x]"])
    (simp add: losses_append_outcome quiet_simps split: option.splits)

lemma sim_at_set_postfix: "sim_at env (set_postfix env) (set_postfix (quiet env)) s"
  unfolding sim_at_def
  by (intro exI [of _ "[SetPostfix (np_mean env (items (losses s)))]"])
    (simp add: set_postfix_def call_outcome quiet_simps split: option.splits)

lemma sim_at_cong:
  "f s = f' s \<Longrightarrow> fq s = fq' s \<Longrightarrow> sim_at env f' fq' s \<Longrightarrow> sim_at env f fq s"
  by (simp add: sim_at_def cong: option.case_cong)

lemma sim_at_report: "sim_at env (report env x) (report (quiet env) x) s"
  unfolding report_def
  by (intro sim_at_seq sim_at_losses_append sim_at_call sim_at_set_postfix)

lemma sim_at_train_step: "sim_at env (train_step env b) (train_step (quiet env) b) s"
proof (cases "pop b ''meta_info''")
  case (Inl e)
  then show ?thesis
    unfolding sim_at_def by (intro exI [of _ "[]"]) (simp add: train_step_report)
next
  case (Inr p)
  obtain meta kwargs where p: "p = (meta, kwargs)" by (cases p)
  have "sim_at env
     (seq (call env ModelTrain)
        (\<lambda>s1. seq (call env (Forward kwargs))
           (seq (call env ZeroGrad)
           (seq (call env (Backward (Loss kwargs (loss_value env (trace s1) kwargs))))
           (seq (call env OptStep)
                (report env (loss_value env (trace s1) kwargs))))) s1))
     (seq (call (quiet env) ModelTrain)
        (\<lambda>s1. seq (call (quiet env) (Forward kwargs))
           (seq (call (quiet env) ZeroGrad)
           (seq (call (quiet env) (Backward (Loss kwargs (loss_value env (trace s1) kwargs))))
           (seq (call (quiet env) OptStep)
                (report (quiet env) (loss_value env (trace s1) kwargs))))) s1)) s"
  proof (rule sim_at_seq [OF sim_at_call])
    fix s1
    have "sim_at env
       (seq (call env (Forward kwargs))
           (seq (call env ZeroGrad)
           (seq (call env (Backward (Loss kwargs (loss_value env (trace s1) kwargs))))
           (seq (call env OptStep)
                (report env (loss_value env (trace s1) kwargs))))))
       (seq (call (quiet env) (Forward kwargs))
           (seq (call (quiet env) ZeroGrad)
           (seq (call (quiet env) (Backward (Loss kwargs (loss_value env (trace s1) kwargs))))
           (seq (call (quiet env) OptStep)
                (report (quiet env) (loss_value env (trace s1) kwargs)))))) s1"
      by (intro sim_at_seq sim_at_call sim_at_report)
    then show "sim_at env
       (\<lambda>s1. seq (call env (Forward kwargs))
           (seq (call env ZeroGrad)
           (seq (call env (Backward (Loss kwargs (loss_value env (trace s1) kwargs))))
           (seq (call env OptStep)
                (report env (loss_value env (trace s1) kwargs))))) s1)
       (\<lambda>s1. seq (call (quiet env) (Forward kwargs))
           (seq (call (quiet env) ZeroGrad)
           (seq (call (quiet env) (Backward (Loss kwargs (loss_value env (trace s1) kwargs))))
           (seq (call (quiet env) OptStep)
                (report (quiet env) (loss_value env (trace s1) kwargs))))) s1) s1"
      by (simp add: sim_at_def)
  qed
  moreover have "train_step env b s =
      seq (call env ModelTrain)
        (\<lambda>s1. seq (call env (Forward kwargs))
           (seq (call env ZeroGrad)
           (seq (call env (Backward (Loss kwargs (loss_value env (trace s1) kwargs))))
           (seq (call env OptStep)
                (report env (loss_value env (trace s1) kwargs))))) s1) s"
    using Inr p by (simp add: train_step_report Let_def)
  moreover have "train_step (quiet env) b s =
      seq (call (quiet env) ModelTrain)
        (\<lambda>s1. seq (call (quiet env) (Forward kwargs))
           (seq (call (quiet env) ZeroGrad)
           (seq (call (quiet env) (Backward (Loss kwargs (loss_value env (trace s1) kwargs))))
           (seq (call (quiet env) OptStep)
                (report (quiet env) (loss_value env (trace s1) kwargs))))) s1) s"
    using Inr p by (simp add: train_step_report Let_def quiet_simps)
  ultimately show ?thesis by (rule sim_at_cong [rotated 2])
qed

lemma sim_at_for_batches: "sim_at env (for_batches env xs) (for_batches (quiet env) xs) s"
proof (induction xs arbitrary: s)
  case Nil
  show ?case unfolding sim_at_def by (intro exI [of _ "[]"]) simp
next
  case (Cons a xs)
  show ?case
  proof (cases a)
    case (Inl e)
    then show ?thesis unfolding sim_at_def by (intro exI [of _ "[]"]) simp
  next
    case (Inr b)
    have "sim_at env (seq (train_step env b) (for_batches env xs))
            (seq (train_step (quiet env) b) (for_batches (quiet env) xs)) s"
      by (intro sim_at_seq sim_at_train_step Cons.IH)
    with Inr show ?thesis by (simp add: sim_at_def)
  qed
qed

lemma sim_at_run_epoch: "sim_at env (run_epoch env epoch) (run_epoch (quiet env) epoch) s"
  unfolding run_epoch_def quiet_simps
  by (intro sim_at_seq sim_at_call sim_at_for_batches)

lemma sim_at_for_epochs: "sim_at env (for_epochs env es) (for_epochs (quiet env) es) s"
proof (induction es arbitrary: s)
  case Nil
  show ?case unfolding sim_at_def by (intro exI [of _ "[]"]) simp
next
  case (Cons a es)
  have "sim_at env (seq (run_epoch env a) (for_epochs env es))
          (seq (run_epoch (quiet env) a) (for_epochs (quiet env) es)) s"
    by (intro sim_at_seq sim_at_run_epoch Cons.IH)
  then show ?case by (simp add: sim_at_def)
qed

lemma train_sim:
  "case first_raise env [] (trace (fst (train (quiet env)))) of
     None \<Rightarrow> train env = train (quiet env)
   | Some (pre, e) \<Rightarrow> snd (train env) = Some e \<and> trace (fst (train env)) = pre"
proof -
  have "sim_at env
     (seq (call env (Tqdm (3 * loader_len env)))
        (seq (call env (Makedirs ''./output'')) (for_epochs env [0, 1, 2])))
     (seq (call (quiet env) (Tqdm (3 * loader_len env)))
        (seq (call (quiet env) (Makedirs ''./output'')) (for_epochs (quiet env) [0, 1, 2])))
     initial"
    by (intro sim_at_seq sim_at_call sim_at_for_epochs)
  then have "sim_at env (\<lambda>s. train env) (\<lambda>s. train (quiet env)) initial"
    by (rule sim_at_cong [rotated 2]) (simp_all add: train_def quiet_simps)
  then show ?thesis
    by (simp add: sim_at_def initial_def cong: option.case_cong prod.case_cong)
qed

lemma train_first_raise:
  assumes "trace (fst (train (quiet env))) = pre @ ev # post" "clean env pre"
    "raises env pre ev = Some e"
  shows "snd (train env) = Some e \<and> trace (fst (train env)) = pre"
proof -
  from assms have "first_raise env [] (trace (fst (train (quiet env)))) = Some (pre, e)"
    by (simp add: first_raise_at)
  with train_sim [of env] show ?thesis by simp
qed

lemma train_no_raise:
  assumes "clean env (trace (fst (train (quiet env))))"
  shows "train env = train (quiet env)"
proof -
  from assms have "first_raise env [] (trace (fst (train (quiet env)))) = None"
    by (simp add: first_raise_clean)
  with train_sim [of env] show ?thesis by simp
qed

subsection \<open>The outcome of the quiet run\<close>

lemma first_item_error_append:
  "first_item_error (a @ b) =
     (case first_item_error a of Some e \<Rightarrow> Some e | None \<Rightarrow> first_item_error b)"
  by (induction a rule: first_item_error.induct) simp_all

lemma quiet_train_step:
  "snd (train_step (quiet env) b s) =
     (if b ''meta_info'' = None then Some (KeyError ''meta_info'') else None)"
proof (cases "b ''meta_info''")
  case None
  then show ?thesis by (simp add: train_step_def pop_def)
next
  case (Some m)
  show ?thesis
  proof (cases "snd (train_step (quiet env) b s)")
    case None
    with Some show ?thesis by simp
  next
    case e: (Some e)
    then have "train_step (quiet env) b s = (fst (train_step (quiet env) b s), Some e)"
      by (simp add: prod_eq_iff)
    from train_step_Some [OF this] Some show ?thesis by (simp add: quiet_simps)
  qed
qed

lemma quiet_call: "call (quiet env) ev s = (s\<lparr>trace := trace s @ [ev]\<rparr>, None)"
  by (simp add: call_outcome quiet_simps)

lemma quiet_for_batches: "snd (for_batches (quiet env) xs s) = first_item_error xs"
proof (induction xs arbitrary: s)
  case Nil
  show ?case by simp
next
  case (Cons a xs)
  show ?case
  proof (cases a)
    case (Inl e)
    then show ?thesis by simp
  next
    case (Inr b)
    obtain s1 r1 where q: "train_step (quiet env) b s = (s1, r1)"
      by (cases "train_step (quiet env) b s")
    with quiet_train_step [of env b s]
    have r1: "r1 = (if b ''meta_info'' = None then Some (KeyError ''meta_info'') else None)"
      by simp
    show ?thesis
      using Inr q r1 Cons.IH [of s1] by (simp add: seq_def)
  qed
qed

lemma quiet_run_epoch:
  "snd (run_epoch (quiet env) epoch s) = first_item_error (loader env epoch)"
proof -
  obtain s1 r1 where q: "for_batches (quiet env) (loader env epoch)
      (s\<lparr>trace := trace s @ [SetDescription (epoch + 1)]\<rparr>) = (s1, r1)"
    by (cases "for_batches (quiet env) (loader env epoch)
      (s\<lparr>trace := trace s @ [SetDescription (epoch + 1)]\<rparr>)")
  with quiet_for_batches [of env "loader env epoch"
      "s\<lparr>trace := trace s @ [SetDescription (epoch + 1)]\<rparr>"]
  have "r1 = first_item_error (loader env epoch)" by simp
  with q show ?thesis
    by (simp add: run_epoch_def seq_def quiet_call quiet_simps split: option.splits)
qed

lemma quiet_for_epochs:
  "snd (for_epochs (quiet env) es s) = first_item_error (concat (map (loader env) es))"
proof (induction es arbitrary: s)
  case Nil
  show ?case by simp
next
  case (Cons a es)
  obtain s1 r1 where q: "run_epoch (quiet env) a s = (s1, r1)"
    by (cases "run_epoch (quiet env) a s")
  with quiet_run_epoch [of env a s] have "r1 = first_item_error (loader env a)" by simp
  with q Cons.IH [of s1] show ?case
    by (simp add: seq_def first_item_error_append split: option.splits)
qed

lemma quiet_train:
  "snd (train (quiet env)) = first_item_error (loader env 0 @ loader env 1 @ loader env 2)"
  using quiet_for_epochs [of env "[0, 1, 2]"]
  by (simp add: train_def seq_def quiet_call del: for_epochs.simps)

subsection \<open>Appends and displays of a completed run\<close>















subsection \<open>A run of 102 steps\<close>












subsection \<open>The formatter\<close>



lemma format_supervised_sample_fst:
  "fst (format_supervised_sample convert self raw_sample w) =
     (case getitem raw_sample ''prompt'' of Inl e \<Rightarrow> Inl e
      | Inr prompt \<Rightarrow>
     (case getitem raw_sample ''response'' of Inl e \<Rightarrow> Inl e
      | Inr answer \<Rightarrow>
     (case getitem raw_sample ''image'' of Inl e \<Rightarrow> Inl e
      | Inr img \<Rightarrow>
     (case fst (call_convert convert w img ''RGBA'') of
        Inl e \<Rightarrow> Inl e
      | Inr image_rgba \<Rightarrow>
          Inr (PyList
                  [PyDict
                     [(''role'', PyStr ''user''),
                      (''content'',
                         PyList
                           [PyDict [(''type'', PyStr ''image'')],
                            PyDict [(''type'', PyStr ''text''), (''text'', prompt)]])],
                   PyDict
                     [(''role'', PyStr ''assistant''),
                      (''content'',
                         PyList [PyDict [(''type'', PyStr ''text''), (''text'', answer)]])]],
                PyDict [(''image'', image_rgba)])))))"
  by (simp add: format_supervised_sample_def split: sum.splits prod.splits)




section \<open>The configuration file\<close>

lemma top_level_keys_sft_yaml:
  "top_level_keys sft_yaml =
     [''train_cfgs'', ''data_cfgs'', ''sensor_cfgs'', ''logger_cfgs'', ''model_cfgs'',
      ''lora_cfgs'', ''bnb_cfgs'', ''special_tokens'']"
  by (simp add: top_level_keys_def sft_yaml_def)

text \<open>
  C4, as stated: the top-level keys of the document are the seven keys of the six categories
  and no others. This fails: \<^verbatim>\<open>special_tokens\<close> is a top-level key too.
\<close>

theorem C4_top_level_keys_counterexample:
  "\<not> set (top_level_keys sft_yaml) =
       {''train_cfgs'', ''data_cfgs'', ''sensor_cfgs'', ''logger_cfgs'', ''model_cfgs'',
        ''lora_cfgs'', ''bnb_cfgs''}"
proof
  assume eq: "set (top_level_keys sft_yaml) =
       {''train_cfgs'', ''data_cfgs'', ''sensor_cfgs'', ''logger_cfgs'', ''model_cfgs'',
        ''lora_cfgs'', ''bnb_cfgs''}"
  have "''special_tokens'' \<in> set (top_level_keys sft_yaml)"
    by (simp add: top_level_keys_sft_yaml)
  with eq show False by simp
qed

text \<open>
  C4, amended: the top-level keys are, in file order, the seven keys of the six categories
  followed by \<^verbatim>\<open>special_tokens\<close>; exactly the first seven hold nested key groups, and
  \<^verbatim>\<open>special_tokens\<close> holds the null value.
\<close>

theorem C4_top_level_structure:
  "top_level_keys sft_yaml =
     [''train_cfgs'', ''data_cfgs'', ''sensor_cfgs'', ''logger_cfgs'', ''model_cfgs'',
      ''lora_cfgs'', ''bnb_cfgs'', ''special_tokens'']
   \<and> group_keys sft_yaml =
     [''train_cfgs'', ''data_cfgs'', ''sensor_cfgs'', ''logger_cfgs'', ''model_cfgs'',
      ''lora_cfgs'', ''bnb_cfgs'']
   \<and> lookup_path sft_yaml [''special_tokens''] = Some YNull"
  by (simp add: top_level_keys_def group_keys_def sft_yaml_def train_cfgs_def data_cfgs_def
      sensor_cfgs_def logger_cfgs_def model_cfgs_def lora_cfgs_def bnb_cfgs_def)

text \<open>
  C6: the hyperparameters the specification enumerates have these values in the document:
  learning rate 0.0001, Adam betas [0.9, 0.95], Adam epsilon 1.e-8, per-device train batch
  size 8, epochs 200, \<^verbatim>\<open>use_lora\<close> False, \<^verbatim>\<open>r\<close> 16, \<^verbatim>\<open>lora_alpha\<close> 16, \<^verbatim>\<open>use_bnb\<close> False, and the input
  sensors are exactly the navigation and the manipulation camera, in that order.
\<close>

theorem C6_hyperparameters:
  "lookup_path sft_yaml [''train_cfgs'', ''learning_rate''] = Some (YFloat (1 / 10000))
   \<and> lookup_path sft_yaml [''train_cfgs'', ''adam_betas'']
       = Some (YSeq [YFloat (9 / 10), YFloat (95 / 100)])
   \<and> lookup_path sft_yaml [''train_cfgs'', ''adam_epsilon''] = Some (YFloat (1 / 10 ^ 8))
   \<and> lookup_path sft_yaml [''train_cfgs'', ''per_device_train_batch_size''] = Some (YInt 8)
   \<and> lookup_path sft_yaml [''train_cfgs'', ''epochs''] = Some (YInt 200)
   \<and> lookup_path sft_yaml [''lora_cfgs'', ''use_lora''] = Some (YBool False)
   \<and> lookup_path sft_yaml [''lora_cfgs'', ''r''] = Some (YInt 16)
   \<and> lookup_path sft_yaml [''lora_cfgs'', ''lora_alpha''] = Some (YInt 16)
   \<and> lookup_path sft_yaml [''bnb_cfgs'', ''use_bnb''] = Some (YBool False)
   \<and> lookup_path sft_yaml [''sensor_cfgs'', ''input_sensors'']
       = Some (YSeq [YStr ''raw_navigation_camera'', YStr ''raw_manipulation_camera''])"
  by (simp add: sft_yaml_def train_cfgs_def lora_cfgs_def bnb_cfgs_def sensor_cfgs_def)

section \<open>The chat template\<close>

text \<open>
  C2, as stated: every raw sample that contains the keys \<^verbatim>\<open>prompt\<close>, \<^verbatim>\<open>response\<close> and \<^verbatim>\<open>image\<close>
  is mapped to the pair. This fails when \<^verbatim>\<open>.convert('RGBA')\<close> does not return on the value
  under \<^verbatim>\<open>image\<close>: the sample below has all three keys, its \<^verbatim>\<open>image\<close> is \<^verbatim>\<open>None\<close>, and the call
  raises \<^verbatim>\<open>AttributeError\<close> instead of returning.
\<close>

theorem C2_image_not_an_image_counterexample:
  "text_only_sample ''prompt'' = Some (PyStr ''What is shown?'')
   \<and> text_only_sample ''response'' = Some (PyStr ''A cat.'')
   \<and> text_only_sample ''image'' = Some PyNone
   \<and> fst (format_supervised_sample keep_pixels AA_TI2T text_only_sample 0)
       = Inl (AttributeError ''convert'')"
  by (simp add: text_only_sample_def format_supervised_sample_def getitem_def call_convert_def)

text \<open>
  C2, amended: for every raw sample that contains the keys \<^verbatim>\<open>prompt\<close>, \<^verbatim>\<open>response\<close> and \<^verbatim>\<open>image\<close>
  and on whose \<^verbatim>\<open>image\<close> value the call \<^verbatim>\<open>.convert('RGBA')\<close> returns, \<^verbatim>\<open>format_supervised_sample\<close>
  returns the pair whose first element is the two-turn conversation (turn one with role
  \<^verbatim>\<open>user\<close> and content \<^verbatim>\<open>[{'type': 'image'}, {'type': 'text', 'text': prompt}]\<close>, turn two with
  role \<^verbatim>\<open>assistant\<close> and content \<^verbatim>\<open>[{'type': 'text', 'text': response}]\<close>) and whose second
  element is \<^verbatim>\<open>{'image': v}\<close>, with \<open>v\<close> the value that call returned. No other shape of output
  is ever produced: whatever the function returns is that pair, built from the sample's own
  \<^verbatim>\<open>prompt\<close> and \<^verbatim>\<open>response\<close> and from what the call on its \<^verbatim>\<open>image\<close> returned.
\<close>

theorem C2_format_supervised_sample_output:
  "(raw_sample ''prompt'' = Some prompt \<and> raw_sample ''response'' = Some answer
      \<and> raw_sample ''image'' = Some img
      \<and> fst (call_convert convert w img ''RGBA'') = Inr image_rgba \<longrightarrow>
      fst (format_supervised_sample convert self raw_sample w) =
        Inr (PyList
               [PyDict
                  [(''role'', PyStr ''user''),
                   (''content'',
                      PyList
                        [PyDict [(''type'', PyStr ''image'')],
                         PyDict [(''type'', PyStr ''text''), (''text'', prompt)]])],
                PyDict
                  [(''role'', PyStr ''assistant''),
                   (''content'',
                      PyList [PyDict [(''type'', PyStr ''text''), (''text'', answer)]])]],
             PyDict [(''image'', image_rgba)]))
   \<and> (fst (format_supervised_sample convert self raw_sample w) = Inr out \<longrightarrow>
        (\<exists>p a i v.
           raw_sample ''prompt'' = Some p \<and> raw_sample ''response'' = Some a
           \<and> raw_sample ''image'' = Some i \<and> fst (call_convert convert w i ''RGBA'') = Inr v
           \<and> out =
             (PyList
                [PyDict
                   [(''role'', PyStr ''user''),
                    (''content'',
                       PyList
                         [PyDict [(''type'', PyStr ''image'')],
                          PyDict [(''type'', PyStr ''text''), (''text'', p)]])],
                 PyDict
                   [(''role'', PyStr ''assistant''),
                    (''content'',
                       PyList [PyDict [(''type'', PyStr ''text''), (''text'', a)]])]],
              PyDict [(''image'', v)])))"
  unfolding format_supervised_sample_fst
  by (auto simp: getitem_def split: option.splits sum.splits)

text \<open>
  C2, amended, at a concrete sample: the three keys, an object under \<^verbatim>\<open>image\<close>, and a
  \<^verbatim>\<open>convert\<close> that returns.
\<close>

theorem C2_format_supervised_sample_output_witness:
  "example_sample ''prompt'' = Some (PyStr ''What is shown?'')
   \<and> example_sample ''response'' = Some (PyStr ''A cat.'')
   \<and> example_sample ''image'' = Some (PyObject 7)
   \<and> fst (call_convert keep_pixels 0 (PyObject 7) ''RGBA'') = Inr (PyObject 7)
   \<and> fst (format_supervised_sample keep_pixels AA_TI2T example_sample 0) =
       Inr (PyList
              [PyDict
                 [(''role'', PyStr ''user''),
                  (''content'',
                     PyList
                       [PyDict [(''type'', PyStr ''image'')],
                        PyDict [(''type'', PyStr ''text''), (''text'', PyStr ''What is shown?'')]])],
               PyDict
                 [(''role'', PyStr ''assistant''),
                  (''content'',
                     PyList [PyDict [(''type'', PyStr ''text''), (''text'', PyStr ''A cat.'')]])]],
            PyDict [(''image'', PyObject 7)])"
proof -
  have h: "example_sample ''prompt'' = Some (PyStr ''What is shown?'')
     \<and> example_sample ''response'' = Some (PyStr ''A cat.'')
     \<and> example_sample ''image'' = Some (PyObject 7)
     \<and> fst (call_convert keep_pixels 0 (PyObject 7) ''RGBA'') = Inr (PyObject 7)"
    by (simp add: example_sample_def keep_pixels_def call_convert_def)
  with C2_format_supervised_sample_output
         [of example_sample "PyStr ''What is shown?''" "PyStr ''A cat.''" "PyObject 7"
            keep_pixels 0 "PyObject 7" AA_TI2T]
  show ?thesis by blast
qed




section \<open>The training loop\<close>

text \<open>
  C1: the loop runs exactly three epochs; each epoch is one full pass over the batches the
  loader yields in that pass; after each epoch, and not only at the end, the model, the
  tokenizer and the processor are each saved once to \<^verbatim>\<open>./output\<close>. Stated for a run that
  completes; and the run does complete when no library call raises and every item of the
  three passes is a batch with a metadata field.
\<close>

theorem C1_three_epochs_each_checkpointed:
  "(never_raises env \<and> yields_batches (loader env 0) \<and> yields_batches (loader env 1)
      \<and> yields_batches (loader env 2) \<longrightarrow> snd (train env) = None)
   \<and> (snd (train env) = None \<longrightarrow>
        (\<exists>t0 t1 t2.
           trace (fst (train env)) =
             Tqdm (3 * loader_len env) # Makedirs ''./output'' #
             SetDescription 1 # t0 @ checkpoint @
             SetDescription 2 # t1 @ checkpoint @
             SetDescription 3 # t2 @ checkpoint
           \<and> full_pass (loader env 0) t0 \<and> full_pass (loader env 1) t1
           \<and> full_pass (loader env 2) t2)
        \<and> saves (trace (fst (train env))) = checkpoint @ checkpoint @ checkpoint)"
proof (intro conjI impI)
  assume "never_raises env \<and> yields_batches (loader env 0) \<and> yields_batches (loader env 1)
      \<and> yields_batches (loader env 2)"
  then show "snd (train env) = None" by (simp add: train_completes)
next
  assume ok: "snd (train env) = None"
  from train_completed [OF ok] obtain u where
    u: "trace (fst (train env)) = Tqdm (3 * loader_len env) # Makedirs ''./output'' # u"
      "epochs_trace env [0, 1, 2] u"
    by blast
  from epochs_trace_three [OF u(2)] obtain t0 t1 t2 where
    "u = SetDescription (0 + 1) # t0 @ checkpoint @ SetDescription (1 + 1) # t1 @ checkpoint
           @ SetDescription (2 + 1) # t2 @ checkpoint"
    "full_pass (loader env 0) t0" "full_pass (loader env 1) t1" "full_pass (loader env 2) t2"
    by blast
  with u(1) show "\<exists>t0 t1 t2.
           trace (fst (train env)) =
             Tqdm (3 * loader_len env) # Makedirs ''./output'' #
             SetDescription 1 # t0 @ checkpoint @
             SetDescription 2 # t1 @ checkpoint @
             SetDescription 3 # t2 @ checkpoint
           \<and> full_pass (loader env 0) t0 \<and> full_pass (loader env 1) t1
           \<and> full_pass (loader env 2) t2"
    by (intro exI [of _ t0] exI [of _ t1] exI [of _ t2]) simp
  from epochs_trace_saves [OF u(2)] u(1)
  show "saves (trace (fst (train env))) = checkpoint @ checkpoint @ checkpoint"
    by (simp add: saves_Cons)
qed

text \<open>C1 on the example run: it completes, and its checkpoint calls are three rounds of three.\<close>

theorem C1_three_epochs_each_checkpointed_witness:
  "never_raises example_env \<and> yields_batches (loader example_env 0)
   \<and> yields_batches (loader example_env 1) \<and> yields_batches (loader example_env 2)
   \<and> snd (train example_env) = None
   \<and> saves (trace (fst (train example_env))) = checkpoint @ checkpoint @ checkpoint"
proof -
  have h: "never_raises example_env \<and> yields_batches (loader example_env 0)
      \<and> yields_batches (loader example_env 1) \<and> yields_batches (loader example_env 2)"
    by (simp add: never_raises_def yields_batches_def example_env_def example_batch_def)
  with C1_three_epochs_each_checkpointed [of example_env] show ?thesis by simp
qed

text \<open>
  C8: removing the metadata is the loop's only change to a batch. In one iteration, whatever
  its outcome, the model's forward call is made at most once, and exactly once when the
  iteration completes; its keyword arguments are the batch without \<^verbatim>\<open>meta_info\<close>: that key is
  gone, no other key is added or removed, and every other key has its value unchanged. Over a
  completed run the forward calls are the yielded batches, in order, each without its
  \<^verbatim>\<open>meta_info\<close>.
\<close>

theorem C8_forward_receives_batch_without_meta:
  "(\<exists>t. trace (fst (train_step env batch s)) = trace s @ t
        \<and> (forwards t = [] \<or> forwards t = [without_meta batch])
        \<and> (snd (train_step env batch s) = None \<longrightarrow> forwards t = [without_meta batch]))
   \<and> (snd (train env) = None \<longrightarrow>
        forwards (trace (fst (train env))) = map without_meta (all_batches env))
   \<and> without_meta batch ''meta_info'' = None
   \<and> dom (without_meta batch) = dom batch - {''meta_info''}
   \<and> (k \<noteq> ''meta_info'' \<longrightarrow> without_meta batch k = batch k)"
proof (intro conjI impI)
  show "\<exists>t. trace (fst (train_step env batch s)) = trace s @ t
        \<and> (forwards t = [] \<or> forwards t = [without_meta batch])
        \<and> (snd (train_step env batch s) = None \<longrightarrow> forwards t = [without_meta batch])"
    by (rule train_step_forwards)
next
  assume ok: "snd (train env) = None"
  from train_completed [OF ok] obtain u where
    u: "trace (fst (train env)) = Tqdm (3 * loader_len env) # Makedirs ''./output'' # u"
      "epochs_trace env [0, 1, 2] u"
    by blast
  from epochs_trace_forwards [OF u(2)] u(1)
  show "forwards (trace (fst (train env))) = map without_meta (all_batches env)"
    by (simp add: all_batches_def)
qed (auto simp: without_meta_def)

text \<open>C8 on the example run and the example batch.\<close>

theorem C8_forward_receives_batch_without_meta_witness:
  "snd (train_step example_env example_batch initial) = None
   \<and> snd (train example_env) = None
   \<and> forwards (trace (fst (train example_env))) =
       [without_meta example_batch, without_meta example_batch, without_meta example_batch]
   \<and> example_batch ''input_ids'' = Some 1
   \<and> without_meta example_batch ''input_ids'' = Some 1"
proof -
  have ok: "snd (train example_env) = None"
    "snd (train_step example_env example_batch initial) = None"
    by (simp_all add: run_simps example_env_def example_batch_def)
  have ne: "''input_ids'' \<noteq> ''meta_info''" "example_batch ''input_ids'' = Some 1"
    by (simp_all add: example_batch_def)
  from C8_forward_receives_batch_without_meta
         [of example_env example_batch initial "''input_ids''"] ok ne
  show ?thesis
    by (simp add: all_batches_def example_env_def)
qed



text \<open>
  C10: over a completed run the gradient operations are, for each batch in turn, one
  \<^verbatim>\<open>zero_grad\<close>, one \<^verbatim>\<open>backward\<close> and one \<^verbatim>\<open>step\<close>, in that order; and each \<^verbatim>\<open>step\<close> applies a
  gradient buffer that holds the contribution of the current batch alone, so nothing
  accumulates from one batch to the next.
\<close>

theorem C10_gradient_ops_per_batch:
  assumes "snd (train env) = None"
  shows "grad_ops (trace (fst (train env))) =
           concat (map (\<lambda>b. [GZeroGrad, GBackward, GStep]) (all_batches env))
     \<and> steps_applied [] (trace (fst (train env))) =
           map (\<lambda>b. [without_meta b]) (all_batches env)"
proof -
  from train_completed [OF assms] obtain u where
    u: "trace (fst (train env)) = Tqdm (3 * loader_len env) # Makedirs ''./output'' # u"
      "epochs_trace env [0, 1, 2] u"
    by blast
  have f: "forwards u = map without_meta (all_batches env)"
    using epochs_trace_forwards [OF u(2)] by (simp add: all_batches_def)
  show ?thesis
    using epochs_trace_grad_ops [OF u(2)] epochs_trace_steps_applied [OF u(2), of "[]"] u(1) f
    by (simp add: comp_def)
qed

text \<open>C10 on the example run: three batches, three rounds of the three operations.\<close>

theorem C10_gradient_ops_per_batch_witness:
  "snd (train example_env) = None
   \<and> grad_ops (trace (fst (train example_env))) =
       [GZeroGrad, GBackward, GStep, GZeroGrad, GBackward, GStep, GZeroGrad, GBackward, GStep]
   \<and> steps_applied [] (trace (fst (train example_env))) =
       [[without_meta example_batch], [without_meta example_batch], [without_meta example_batch]]"
proof -
  have ok: "snd (train example_env) = None"
    by (simp add: run_simps example_env_def example_batch_def)
  from C10_gradient_ops_per_batch [OF ok] show ?thesis
    using ok by (simp add: all_batches_def example_env_def)
qed

text \<open>
  C5: no failure is caught or recovered from. A raw sample that lacks one of the keys
  \<^verbatim>\<open>prompt\<close>, \<^verbatim>\<open>response\<close>, \<^verbatim>\<open>image\<close> makes the formatter fail with the \<^verbatim>\<open>KeyError\<close> of the first missing
  key, as the lookup raised it, and with nothing else changed. The loop has no handler.
  Take the run of the loop with the same loader and libraries of which no call raises: its
  trace lists the calls the loop makes, in order. If in the real run a call of that list
  raises, all calls before it having completed, then the run ends there, with that very
  error, and its trace is the calls before it: the call's error is neither swallowed nor
  replaced, and nothing runs after it. If no call of the list raises, the real run is that
  run, and it ends with the error of the first item of a pass that the loader failed to
  produce, or with the \<^verbatim>\<open>KeyError\<close> of popping \<^verbatim>\<open>meta_info\<close> from the first batch without it, or
  it completes when there is no such item. Conversely, the error a run ends with is always
  one that a library call raised where the trace stops, or the loader's on an item, or that
  \<^verbatim>\<open>KeyError\<close>; a run that completes had only well-formed items; and no call recorded in a
  trace had raised.
\<close>

theorem C5_failures_propagate:
  "(raw ''prompt'' = None \<or> raw ''response'' = None \<or> raw ''image'' = None \<longrightarrow>
      format_supervised_sample convert self raw w =
        (Inl (KeyError (if raw ''prompt'' = None then ''prompt''
                        else if raw ''response'' = None then ''response'' else ''image'')),
         self, raw, w))
   \<and> (trace (fst (train (quiet env))) = pre @ ev # post \<and> clean env pre
        \<and> raises env pre ev = Some e \<longrightarrow>
        snd (train env) = Some e \<and> trace (fst (train env)) = pre)
   \<and> (clean env (trace (fst (train (quiet env)))) \<longrightarrow> train env = train (quiet env))
   \<and> snd (train (quiet env)) = first_item_error (loader env 0 @ loader env 1 @ loader env 2)
   \<and> (snd (train env) = Some e' \<longrightarrow>
        (\<exists>ev. raises env (trace (fst (train env))) ev = Some e')
        \<or> failed_item (loader env 0) e' \<or> failed_item (loader env 1) e'
        \<or> failed_item (loader env 2) e')
   \<and> (snd (train env) = None \<longrightarrow>
        yields_batches (loader env 0) \<and> yields_batches (loader env 1)
        \<and> yields_batches (loader env 2))
   \<and> clean env (trace (fst (train env)))"
proof (intro conjI impI)
  assume "raw ''prompt'' = None \<or> raw ''response'' = None \<or> raw ''image'' = None"
  then show "format_supervised_sample convert self raw w =
        (Inl (KeyError (if raw ''prompt'' = None then ''prompt''
                        else if raw ''response'' = None then ''response'' else ''image'')),
         self, raw, w)"
    by (auto simp: format_supervised_sample_def getitem_def split: option.splits)
next
  assume h: "trace (fst (train (quiet env))) = pre @ ev # post \<and> clean env pre
        \<and> raises env pre ev = Some e"
  then have "snd (train env) = Some e \<and> trace (fst (train env)) = pre"
    by (intro train_first_raise [of env pre ev post e]) simp_all
  then show "snd (train env) = Some e" and "trace (fst (train env)) = pre" by simp_all
next
  assume "clean env (trace (fst (train (quiet env))))"
  then show "train env = train (quiet env)" by (rule train_no_raise)
next
  show "snd (train (quiet env)) = first_item_error (loader env 0 @ loader env 1 @ loader env 2)"
    by (rule quiet_train)
next
  assume "snd (train env) = Some e'"
  then have "train env = (fst (train env), Some e')" by (simp add: prod_eq_iff)
  from train_Some [OF this]
  show "(\<exists>ev. raises env (trace (fst (train env))) ev = Some e')
        \<or> failed_item (loader env 0) e' \<or> failed_item (loader env 1) e'
        \<or> failed_item (loader env 2) e'"
    by auto
next
  assume ok: "snd (train env) = None"
  from train_completed [OF ok] obtain u where u: "epochs_trace env [0, 1, 2] u" by blast
  note y = yields_batchesI
  from u show "yields_batches (loader env 0)"
    by (auto elim!: epochs_trace_ConsE intro: y)
  from u show "yields_batches (loader env 1)"
    by (auto elim!: epochs_trace_ConsE intro: y)
  from u show "yields_batches (loader env 2)"
    by (auto elim!: epochs_trace_ConsE intro: y)
next
  show "clean env (trace (fst (train env)))" by (rule train_clean)
qed

text \<open>
  C5 at concrete inputs: a sample with a prompt only fails with \<^verbatim>\<open>KeyError('response')\<close>; a run
  whose model raises in its first forward call ends there with that very error, after the
  four calls before it; the example run, in which nothing raises, completes.
\<close>

theorem C5_failures_propagate_witness:
  "prompt_only_sample ''response'' = None
   \<and> format_supervised_sample keep_pixels AA_TI2T prompt_only_sample 0 =
       (Inl (KeyError ''response''), AA_TI2T, prompt_only_sample, 0)
   \<and> trace (fst (train (quiet forward_failing_env))) =
       [Tqdm 3, Makedirs ''./output'', SetDescription 1, ModelTrain]
         @ Forward (without_meta example_batch)
         # drop 5 (trace (fst (train (quiet forward_failing_env))))
   \<and> clean forward_failing_env [Tqdm 3, Makedirs ''./output'', SetDescription 1, ModelTrain]
   \<and> raises forward_failing_env [Tqdm 3, Makedirs ''./output'', SetDescription 1, ModelTrain]
       (Forward (without_meta example_batch)) = Some (LibraryError ''shape mismatch'')
   \<and> snd (train forward_failing_env) = Some (LibraryError ''shape mismatch'')
   \<and> trace (fst (train forward_failing_env)) =
       [Tqdm 3, Makedirs ''./output'', SetDescription 1, ModelTrain]
   \<and> clean example_env (trace (fst (train (quiet example_env))))
   \<and> train example_env = train (quiet example_env)
   \<and> snd (train example_env) = None
   \<and> yields_batches (loader example_env 0)"
proof -
  have a: "prompt_only_sample ''response'' = None" "prompt_only_sample ''prompt'' \<noteq> None"
    by (simp_all add: prompt_only_sample_def)
  have b: "trace (fst (train (quiet forward_failing_env))) =
       [Tqdm 3, Makedirs ''./output'', SetDescription 1, ModelTrain]
         @ Forward (without_meta example_batch)
         # drop 5 (trace (fst (train (quiet forward_failing_env))))"
    by (simp add: run_simps quiet_def forward_failing_env_def example_batch_def
        without_meta_def)
  have c: "clean forward_failing_env [Tqdm 3, Makedirs ''./output'', SetDescription 1, ModelTrain]"
    unfolding first_raise_clean [symmetric]
    by (simp add: forward_failing_env_def)
  have d: "raises forward_failing_env [Tqdm 3, Makedirs ''./output'', SetDescription 1, ModelTrain]
       (Forward (without_meta example_batch)) = Some (LibraryError ''shape mismatch'')"
    by (simp add: forward_failing_env_def)
  have e: "clean example_env (trace (fst (train (quiet example_env))))"
    by (simp add: clean_def example_env_def)
  note t1 = C5_failures_propagate
         [of prompt_only_sample keep_pixels AA_TI2T 0 forward_failing_env
            "[Tqdm 3, Makedirs ''./output'', SetDescription 1, ModelTrain]"
            "Forward (without_meta example_batch)"
            "drop 5 (trace (fst (train (quiet forward_failing_env))))"
            "LibraryError ''shape mismatch''" "LibraryError ''shape mismatch''"]
  note t2 = C5_failures_propagate [of prompt_only_sample keep_pixels AA_TI2T 0 example_env]
  have f: "snd (train forward_failing_env) = Some (LibraryError ''shape mismatch'')"
    "trace (fst (train forward_failing_env)) =
       [Tqdm 3, Makedirs ''./output'', SetDescription 1, ModelTrain]"
    using t1 b c d by blast+
  have g: "train example_env = train (quiet example_env)"
    using t2 e by blast
  have q: "snd (train (quiet example_env)) = None"
    using t2 [THEN conjunct2, THEN conjunct2, THEN conjunct2, THEN conjunct1]
    by (simp add: example_env_def example_batch_def)
  have k: "format_supervised_sample keep_pixels AA_TI2T prompt_only_sample 0 =
       (Inl (KeyError ''response''), AA_TI2T, prompt_only_sample, 0)"
    using t2 [THEN conjunct1] a by simp
  have y: "yields_batches (loader example_env 0)"
    using t2 g q by simp
  show ?thesis using a(1) k b c d f e g q y by simp
qed

end
